theory Spec2Isabelle
  imports Main "HOL-Library.AList" "HOL-Library.Sublist"
begin

section \<open>The record module of the store (ReasonRecordDict)\<close>

text \<open>
  \<^verbatim>\<open>RelayModernRecord.js\<close> exports \<^verbatim>\<open>ReasonRecordDict\<close> (the branch
  \<^verbatim>\<open>false ? ... : ReasonRecordDict\<close>), so the Reason module is the implementation
  that runs; the theory embeds it function by function.

  Conventions of the embedding.
  \<^item> A record is a JavaScript object (\<^verbatim>\<open>Js.Dict.t(value)\<close>) handled by reference.
    The store keeps every allocated object in a list; a reference is an index into it,
    allocation appends. Two references are the same object iff they are the same index.
  \<^item> The content of an object is the list of its own entries in enumeration order,
    without duplicate keys; \<^verbatim>\<open>Js.Dict.set\<close> overwrites in place or appends.
    (Engines enumerate keys that are array indices first; no statement below depends
    on the position of an entry.) Keys inherited from \<^verbatim>\<open>Object.prototype\<close>
    are not modelled.
  \<^item> Structural equality of Reason (\<^verbatim>\<open>==\<close>, \<^verbatim>\<open>!=\<close>) is equality of HOL; the one
    number that is not equal to itself (NaN) is not modelled.
  \<^item> An exception is a value \<open>Inl e\<close> of a sum type, returned together with the store
    that the call leaves behind.
\<close>

subsection \<open>Keys\<close>

definition id_key :: string where
  "id_key = ''__id''"

definition typename_key :: string where
  "typename_key = ''__typename''"

definition frozen_key :: string where
  "frozen_key = ''__frozen''"

definition isClientID :: "string \<Rightarrow> bool" where
  \<comment> \<open>the regular expression \<^verbatim>\<open>/^client:/\<close>\<close>
  "isClientID dataId = prefix ''client:'' dataId"

subsection \<open>JavaScript values at the boundary\<close>

text \<open>
  A JavaScript number is either an integer or not (\<^verbatim>\<open>Number.isInteger\<close>); a number
  that is not an integer is carried unchanged and identified by its rendering
  (\<^verbatim>\<open>toString\<close>), since no arithmetic is done on it.
\<close>

datatype number = Integer int | NonInteger string

text \<open>
  \<open>JObject r rs ps\<close> is a plain object: \<open>r\<close> is its own property \<^verbatim>\<open>__ref\<close> when it
  has one, \<open>rs\<close> its own property \<^verbatim>\<open>__refs\<close> when it has one (an array of ids with
  null slots, \<open>None\<close> being a null slot), \<open>ps\<close> its other properties.
\<close>

datatype jsval =
    JUndefined
  | JNull
  | JBoolean bool
  | JNumber number
  | JString string
  | JArray "jsval list"
  | JObject "string option" "string option list option" "(string \<times> jsval) list"
  | JFunction
  | JSymbol

datatype js_exn = Error string | TypeError string

datatype 'a nullable = Nullable_undefined | Nullable_null | Nullable_return 'a

fun Js_Nullable_toOption :: "jsval \<Rightarrow> jsval option" where
  "Js_Nullable_toOption JNull = None"
| "Js_Nullable_toOption JUndefined = None"
| "Js_Nullable_toOption v = Some v"

fun Js_typeof :: "jsval \<Rightarrow> string" where
  "Js_typeof JUndefined = ''undefined''"
| "Js_typeof JNull = ''object''"
| "Js_typeof (JBoolean b) = ''boolean''"
| "Js_typeof (JNumber n) = ''number''"
| "Js_typeof (JString s) = ''string''"
| "Js_typeof (JArray xs) = ''object''"
| "Js_typeof (JObject r rs ps) = ''object''"
| "Js_typeof JFunction = ''function''"
| "Js_typeof JSymbol = ''symbol''"

fun isInteger :: "jsval \<Rightarrow> bool" where
  "isInteger (JNumber (Integer i)) = True"
| "isInteger v = False"

text \<open>
  \<^verbatim>\<open>Obj.magic\<close> is the identity at run time. Each cast is a function defined only on
  the values of the target type; the code guards every cast by \<^verbatim>\<open>Js.typeof\<close>.
\<close>

fun magic_string :: "jsval \<Rightarrow> string" where
  "magic_string (JString s) = s"

fun magic_bool :: "jsval \<Rightarrow> bool" where
  "magic_bool (JBoolean b) = b"

fun magic_int :: "jsval \<Rightarrow> int" where
  "magic_int (JNumber (Integer i)) = i"

fun magic_float :: "jsval \<Rightarrow> number" where
  "magic_float (JNumber n) = n"

fun magic_array :: "jsval \<Rightarrow> jsval list" where
  "magic_array (JArray xs) = xs"

text \<open>\<^verbatim>\<open>Js.Dict.get(obj, "__ref")\<close> and \<^verbatim>\<open>Js.Dict.get(obj, "__refs")\<close> on an object
  that is not null.\<close>

fun Js_Dict_get_ref :: "jsval \<Rightarrow> string option" where
  "Js_Dict_get_ref (JObject r rs ps) = r"
| "Js_Dict_get_ref v = None"

fun Js_Dict_get_refs :: "jsval \<Rightarrow> string option list option" where
  "Js_Dict_get_refs (JObject r rs ps) = rs"
| "Js_Dict_get_refs v = None"

subsection \<open>Rendering of numbers and booleans\<close>

fun digits :: "nat \<Rightarrow> string" where
  "digits n =
     (if n < 10 then [''0123456789'' ! n]
      else digits (n div 10) @ [''0123456789'' ! (n mod 10)])"

declare digits.simps [simp del]

definition string_of_int :: "int \<Rightarrow> string" where
  "string_of_int i = (if i < 0 then CHR ''-'' # digits (nat (- i)) else digits (nat i))"

fun Js_Float_toString :: "number \<Rightarrow> string" where
  \<comment> \<open>\<^verbatim>\<open>Number.prototype.toString\<close>; the digits of an integer are what JavaScript prints
     as long as the integer is at most \<open>2 ^ 53\<close> in magnitude\<close>
  "Js_Float_toString (Integer i) = string_of_int i"
| "Js_Float_toString (NonInteger r) = r"

definition string_of_bool :: "bool \<Rightarrow> string" where
  "string_of_bool b = (if b then ''true'' else ''false'')"

text \<open>
  \<^verbatim>\<open>Js.Int.toString(x)\<close> is the method call \<^verbatim>\<open>x.toString()\<close> on a value that
  \<^verbatim>\<open>Obj.magic\<close> has not checked; the call raises on null and on undefined. An array
  prints its elements separated by commas (null and undefined print as nothing), a plain
  object prints \<^verbatim>\<open>[object Object]\<close>. A function prints its source text and a symbol its
  description, which a \<open>jsval\<close> does not carry: \<open>js_text\<close> has no equation for them, and
  no call of the module reaches them.
\<close>

fun js_text :: "jsval \<Rightarrow> string"
  and js_join :: "jsval list \<Rightarrow> string" where
  "js_text JUndefined = ''undefined''"
| "js_text JNull = ''null''"
| "js_text (JBoolean b) = string_of_bool b"
| "js_text (JNumber n) = Js_Float_toString n"
| "js_text (JString s) = s"
| "js_text (JArray xs) = js_join xs"
| "js_text (JObject r rs ps) = ''[object Object]''"
| "js_join [] = []"
| "js_join (x # xs) =
     (if x = JNull \<or> x = JUndefined then [] else js_text x)
     @ (if xs = [] then [] else '','' @ js_join xs)"

definition Js_Int_toString :: "jsval \<Rightarrow> js_exn + string" where
  "Js_Int_toString x =
     (if x = JNull then Inl (TypeError ''Cannot read properties of null (reading toString)'')
      else if x = JUndefined
        then Inl (TypeError ''Cannot read properties of undefined (reading toString)'')
      else Inr (js_text x))"

subsection \<open>Field values\<close>

datatype "value" =
    Null
  | Undefined
  | String string
  | Int' int
  | Float number
  | Bool bool
  | Ref string
  | Refs "string option list"
  | Custom jsval
  | Array "value list"

fun sequence :: "('e + 'a) list \<Rightarrow> 'e + 'a list" where
  "sequence [] = Inr []"
| "sequence (x # xs) =
     (case x of
        Inl e \<Rightarrow> Inl e
      | Inr y \<Rightarrow> (case sequence xs of Inl e \<Rightarrow> Inl e | Inr ys \<Rightarrow> Inr (y # ys)))"

definition in_null_error :: js_exn where
  \<comment> \<open>what the operator \<^verbatim>\<open>in\<close> throws when its right operand is null\<close>
  "in_null_error = TypeError ''Cannot use in operator to search for a key in null''"

definition unhandled_error :: "jsval \<Rightarrow> js_exn" where
  \<comment> \<open>in the source the variable \<open>v\<close> of this branch is the string that \<^verbatim>\<open>Js.typeof\<close> has
     answered, so \<^verbatim>\<open>Js.typeof(v)\<close> is \<^verbatim>\<open>string\<close>; \<^verbatim>\<open>JSON.stringify\<close> of undefined, of a
     function and of a symbol is undefined\<close>
  "unhandled_error valueObj =
     TypeError (''Unhandled value type: '' @ Js_typeof (JString (Js_typeof valueObj))
       @ '' with value '' @ ''undefined'')"

function transformValueFromObj :: "jsval \<Rightarrow> js_exn + value" where
  "transformValueFromObj valueObj =
     (if Js_typeof valueObj = ''string'' then Inr (String (magic_string valueObj))
      else if Js_typeof valueObj = ''array'' then
        (case sequence (map transformValueFromObj (magic_array valueObj)) of
           Inl e \<Rightarrow> Inl e
         | Inr vs \<Rightarrow> Inr (Array vs))
      else if Js_typeof valueObj = ''boolean'' then Inr (Bool (magic_bool valueObj))
      else if Js_typeof valueObj = ''number'' then
        (if isInteger valueObj then Inr (Int' (magic_int valueObj))
         else Inr (Float (magic_float valueObj)))
      else if Js_typeof valueObj = ''object'' then
        (if valueObj = JNull then Inl in_null_error
         else (case (Js_Dict_get_ref valueObj, Js_Dict_get_refs valueObj) of
                 (Some a, None) \<Rightarrow> Inr (Ref a)
               | (None, Some a) \<Rightarrow> Inr (Refs a)
               | _ \<Rightarrow> Inr (Custom valueObj)))
      else Inl (unhandled_error valueObj))"
  by pat_completeness auto
termination
proof (relation "measure size")
  show "wf (measure size)" by simp
next
  fix valueObj x :: jsval
  assume "Js_typeof valueObj = ''array''"
  then show "(x, valueObj) \<in> measure size"
    by (cases valueObj) simp_all
qed

declare transformValueFromObj.simps [simp del]

fun transformValueToObj :: "value \<Rightarrow> jsval" where
  "transformValueToObj (Array arr) = JArray (map transformValueToObj arr)"
| "transformValueToObj (Custom v) = v"
| "transformValueToObj (String v) = JString v"
| "transformValueToObj (Bool v) = JBoolean v"
| "transformValueToObj (Int' v) = JNumber (Integer v)"
| "transformValueToObj (Float v) = JNumber v"
| "transformValueToObj Null = JNull"
| "transformValueToObj Undefined = JUndefined"
| "transformValueToObj (Ref v) = JObject (Some v) None []"
| "transformValueToObj (Refs v) = JObject None (Some v) []"

subsection \<open>Objects, references and the store\<close>

type_synonym recordDict = "(string \<times> value) list"

type_synonym recordObj = "(string \<times> jsval) list"

type_synonym record_ref = nat

type_synonym warning = "string \<times> string list"

record store =
  heap :: "recordDict list"
  warnings :: "warning list"

definition Js_Dict_empty :: "(string \<times> 'v) list" where
  "Js_Dict_empty = []"

definition Js_Dict_get :: "(string \<times> 'v) list \<Rightarrow> string \<Rightarrow> 'v option" where
  \<comment> \<open>the entry of the object under the key. \<^verbatim>\<open>Js.Dict.get\<close> tests \<^verbatim>\<open>key in dict\<close>: on a key
     that every object inherits, such as \<^verbatim>\<open>toString\<close>, and that the object does not hold
     itself, it answers the inherited function; the statements about \<^verbatim>\<open>update\<close> exclude
     these keys (\<open>inherited_key\<close>)\<close>
  "Js_Dict_get d k = map_of d k"

definition Js_Dict_set :: "(string \<times> 'v) list \<Rightarrow> string \<Rightarrow> 'v \<Rightarrow> (string \<times> 'v) list" where
  "Js_Dict_set d k v = AList.update k v d"

definition Js_Dict_entries :: "(string \<times> 'v) list \<Rightarrow> (string \<times> 'v) list" where
  "Js_Dict_entries d = d"

definition deref :: "store \<Rightarrow> record_ref \<Rightarrow> recordDict" where
  "deref s r = heap s ! r"

definition live :: "store \<Rightarrow> record_ref \<Rightarrow> bool" where
  \<comment> \<open>the reference points to an allocated object\<close>
  "live s r = (r < length (heap s))"

definition alloc :: "store \<Rightarrow> recordDict \<Rightarrow> record_ref \<times> store" where
  "alloc s d = (length (heap s), s\<lparr>heap := heap s @ [d]\<rparr>)"

definition dict_set :: "store \<Rightarrow> record_ref \<Rightarrow> string \<Rightarrow> value \<Rightarrow> store" where
  \<comment> \<open>\<^verbatim>\<open>Js.Dict.set(r, k, v)\<close>: the object behind \<open>r\<close> is changed in place\<close>
  "dict_set s r k v = s\<lparr>heap := (heap s)[r := Js_Dict_set (deref s r) k v]\<rparr>"

definition deep_equal :: "(string \<times> 'v) list \<Rightarrow> (string \<times> 'v) list \<Rightarrow> bool" where
  \<comment> \<open>the same keys with the same values, in any order\<close>
  "deep_equal d1 d2 = (set d1 = set d2)"

definition overlay :: "(string \<times> 'v) list \<Rightarrow> (string \<times> 'v) list \<Rightarrow> (string \<times> 'v) list" where
  \<comment> \<open>the entries of \<open>d1\<close> with every entry of \<open>d2\<close> written over them\<close>
  "overlay d1 d2 = fold (\<lambda>(k, v) d. Js_Dict_set d k v) d2 d1"

text \<open>
  Modelled from the spec: the diagnostics sink, the external module \<^verbatim>\<open>warning\<close>.
  A call whose condition is false reports its format and arguments; a call whose
  condition is true reports nothing; the caller continues in both cases.
\<close>

definition Warning_warning :: "store \<Rightarrow> bool \<Rightarrow> string \<Rightarrow> string list \<Rightarrow> store" where
  "Warning_warning s cond format args =
     (if cond then s else s\<lparr>warnings := warnings s @ [(format, args)]\<rparr>)"

subsection \<open>Structural comparison\<close>

text \<open>
  Modelled from the spec: the comparison \<^verbatim>\<open>!=\<close> of the Reason runtime, which \<^verbatim>\<open>update\<close>
  applies to the two results of \<^verbatim>\<open>Js.Dict.get\<close>; the runtime is not part of the sources.
  It is deep equality: two lookups are equal when both find nothing, or both find a value
  of the same variant with equal contents. Numbers are compared by \<^verbatim>\<open>===\<close>, so that NaN
  differs from itself; arrays are compared element by element; plain objects are equal
  when they have the same keys with equal values, in whatever order the keys were
  written.

  The runtime answers at once when its two operands are the same object, raises on a
  function, and treats a few mixed pairs (an array against an object, an array or an
  object against a string or a boolean) in a way that depends on the order of the
  operands. These definitions do not follow it there; the statements about \<^verbatim>\<open>update\<close>
  exclude such operands by \<open>comparable_fields\<close>.
\<close>

definition is_NaN :: "number \<Rightarrow> bool" where
  "is_NaN n = (n = NonInteger ''NaN'')"

definition number_equal :: "number \<Rightarrow> number \<Rightarrow> bool" where
  "number_equal n m = (n = m \<and> \<not> is_NaN n)"

fun caml_equal_js :: "jsval \<Rightarrow> jsval \<Rightarrow> bool"
  and caml_equal_list :: "jsval list \<Rightarrow> jsval list \<Rightarrow> bool"
  and caml_equal_props :: "(string \<times> jsval) list \<Rightarrow> (string \<times> jsval) list \<Rightarrow> bool" where
  "caml_equal_js (JNumber n) y = (case y of JNumber m \<Rightarrow> number_equal n m | _ \<Rightarrow> False)"
| "caml_equal_js (JArray xs) y = (case y of JArray ys \<Rightarrow> caml_equal_list xs ys | _ \<Rightarrow> False)"
| "caml_equal_js (JObject r rs ps) y =
     (case y of
        JObject r' rs' ps' \<Rightarrow>
          r = r' \<and> rs = rs' \<and> set (map fst ps) = set (map fst ps') \<and> caml_equal_props ps ps'
      | _ \<Rightarrow> False)"
| "caml_equal_js JUndefined y = (y = JUndefined)"
| "caml_equal_js JNull y = (y = JNull)"
| "caml_equal_js (JBoolean b) y = (y = JBoolean b)"
| "caml_equal_js (JString s) y = (y = JString s)"
| "caml_equal_js JFunction y = (y = JFunction)"
| "caml_equal_js JSymbol y = (y = JSymbol)"
| "caml_equal_list [] ys = (ys = [])"
| "caml_equal_list (x # xs) ys =
     (case ys of [] \<Rightarrow> False | y # ys' \<Rightarrow> caml_equal_js x y \<and> caml_equal_list xs ys')"
| "caml_equal_props [] ps' = True"
| "caml_equal_props ((k, u) # ps) ps' =
     ((case map_of ps' k of Some v \<Rightarrow> caml_equal_js u v | None \<Rightarrow> False)
      \<and> caml_equal_props ps ps')"

fun caml_equal :: "value \<Rightarrow> value \<Rightarrow> bool"
  and caml_equal_values :: "value list \<Rightarrow> value list \<Rightarrow> bool" where
  "caml_equal (Float n) w = (case w of Float m \<Rightarrow> number_equal n m | _ \<Rightarrow> False)"
| "caml_equal (Custom c) w = (case w of Custom d \<Rightarrow> caml_equal_js c d | _ \<Rightarrow> False)"
| "caml_equal (Array vs) w = (case w of Array ws \<Rightarrow> caml_equal_values vs ws | _ \<Rightarrow> False)"
| "caml_equal Null w = (w = Null)"
| "caml_equal Undefined w = (w = Undefined)"
| "caml_equal (String x) w = (w = String x)"
| "caml_equal (Int' i) w = (w = Int' i)"
| "caml_equal (Bool b) w = (w = Bool b)"
| "caml_equal (Ref x) w = (w = Ref x)"
| "caml_equal (Refs xs) w = (w = Refs xs)"
| "caml_equal_values [] ws = (ws = [])"
| "caml_equal_values (v # vs) ws =
     (case ws of [] \<Rightarrow> False | w # ws' \<Rightarrow> caml_equal v w \<and> caml_equal_values vs ws')"

definition caml_notequal :: "value option \<Rightarrow> value option \<Rightarrow> bool" where
  "caml_notequal x y =
     (case (x, y) of
        (None, None) \<Rightarrow> False
      | (Some v, Some w) \<Rightarrow> \<not> caml_equal v w
      | _ \<Rightarrow> True)"

subsection \<open>Operations of the module\<close>

definition clone :: "store \<Rightarrow> record_ref \<Rightarrow> record_ref \<times> store" where
  "clone s r =
     (let (clone, s1) = alloc s Js_Dict_empty
      in (clone,
          fold (\<lambda>(k, v) s'. if k \<noteq> frozen_key then dict_set s' clone k v else s')
            (Js_Dict_entries (deref s1 r)) s1))"

definition copyFields :: "store \<Rightarrow> record_ref \<Rightarrow> record_ref \<Rightarrow> store" where
  "copyFields s a b =
     fold (\<lambda>(k, v) s'. if k \<noteq> id_key \<and> k \<noteq> typename_key then dict_set s' b k v else s')
       (Js_Dict_entries (deref s a)) s"

definition create_id :: "jsval \<Rightarrow> js_exn + jsval" where
  \<comment> \<open>the value \<^verbatim>\<open>id\<close> of \<^verbatim>\<open>create\<close>: a number is turned into a string, any other value
     is taken as it is\<close>
  "create_id dataId =
     (if Js_typeof dataId = ''number'' then
        (case Js_Int_toString dataId of Inl e \<Rightarrow> Inl e | Inr t \<Rightarrow> Inr (JString t))
      else Inr dataId)"

definition create ::
  "store \<Rightarrow> jsval \<Rightarrow> string \<Rightarrow> (js_exn + record_ref) \<times> store" where
  "create s dataId typename =
     (let (r, s1) = alloc s Js_Dict_empty
      in (case create_id dataId of
            Inl e \<Rightarrow> (Inl e, s1)
          | Inr id' \<Rightarrow>
              (let s2 = dict_set s1 r id_key (String (magic_string id'));
                   s3 = dict_set s2 r typename_key (String typename)
               in (Inr r, s3))))"

definition freeze :: "store \<Rightarrow> record_ref \<Rightarrow> store" where
  "freeze s r = dict_set s r frozen_key (Bool True)"

definition isFrozen :: "store \<Rightarrow> record_ref \<Rightarrow> bool" where
  "isFrozen s r =
     (case Js_Dict_get (deref s r) frozen_key of
        Some (Bool v) \<Rightarrow> v
      | _ \<Rightarrow> False)"

definition getDataID :: "store \<Rightarrow> record_ref \<Rightarrow> string" where
  "getDataID s r =
     (case Js_Dict_get (deref s r) id_key of
        Some (String v) \<Rightarrow> v
      | _ \<Rightarrow> [])"

definition getType :: "store \<Rightarrow> record_ref \<Rightarrow> string" where
  "getType s r =
     (case Js_Dict_get (deref s r) typename_key of
        Some (String v) \<Rightarrow> v
      | _ \<Rightarrow> [])"

definition getLinkedRecordID :: "store \<Rightarrow> record_ref \<Rightarrow> string \<Rightarrow> js_exn + string nullable" where
  "getLinkedRecordID s r key =
     (case Js_Dict_get (deref s r) key of
        Some (Ref ref) \<Rightarrow> Inr (Nullable_return ref)
      | None \<Rightarrow> Inr Nullable_undefined
      | Some Null \<Rightarrow> Inr Nullable_null
      | _ \<Rightarrow> Inl (Error ''WRONG''))"

definition valueFormatted :: "value \<Rightarrow> string" where
  "valueFormatted v =
     (case v of
        String s \<Rightarrow> s
      | Float f \<Rightarrow> Js_Float_toString f
      | Int' i \<Rightarrow> string_of_int i
      | Bool b \<Rightarrow> string_of_bool b
      | Ref ref \<Rightarrow> ''ref:'' @ ref
      | Null \<Rightarrow> ''null''
      | _ \<Rightarrow> ''Whatever left'')"

definition getLinkedRecordIDs ::
  "store \<Rightarrow> record_ref \<Rightarrow> string \<Rightarrow> js_exn + string option list nullable" where
  "getLinkedRecordIDs s r key =
     (case Js_Dict_get (deref s r) key of
        Some (Refs refs) \<Rightarrow> Inr (Nullable_return refs)
      | None \<Rightarrow> Inr Nullable_undefined
      | Some Null \<Rightarrow> Inr Nullable_null
      | Some v \<Rightarrow>
          Inl (Error (''RelayModernRecord.getLinkedRecordIDs(): Expected `'' @ getDataID s r
            @ ''.'' @ key @ ''` to contain an array of linked IDs, got `''
            @ valueFormatted v @ ''`.'')))"

definition getValue :: "store \<Rightarrow> record_ref \<Rightarrow> string \<Rightarrow> js_exn + jsval" where
  "getValue s r key =
     (let id' = getDataID s r in
      case Js_Dict_get (deref s r) key of
        Some (Ref x) \<Rightarrow>
          Inl (Error (''RelayModernRecord.getValue(): Expected a scalar (non-link) value for `''
            @ id' @ ''.'' @ key @ ''` but found a linked record.''))
      | Some (Refs x) \<Rightarrow>
          Inl (Error (''RelayModernRecord.getValue(): Expected a scalar (non-link) value for `''
            @ id' @ ''.'' @ key @ ''` but found plural linked records.''))
      | Some v \<Rightarrow> Inr (transformValueToObj v)
      | None \<Rightarrow> Inr JUndefined)"

definition update_id_format :: string where
  "update_id_format = ''RelayModernRecord: Invalid record update, expected both versions of the record to have the same id, got `%s` and `%s`.''"

definition update_type_format :: string where
  "update_type_format = ''RelayModernRecord: Invalid record update, expected both versions of record `%s` to have the same `%s` but got conflicting types `%s` and `%s`. The GraphQL server likely violated the globally unique id requirement by returning the same id for different objects.''"

definition merge_id_format :: string where
  "merge_id_format = ''RelayModernRecord: Invalid record merge, expected both versions of the record to have the same id, got `%s` and `%s`.''"

definition merge_type_format :: string where
  "merge_type_format = ''RelayModernRecord: Invalid record merge, expected both versions of record `%s` to have the same `%s` but got conflicting types `%s` and `%s`. The GraphQL server likely violated the globally unique id requirement by returning the same id for different objects.''"

definition field_id_format :: string where
  "field_id_format = ''RelayModernRecord: Invalid field update, expected both versions of the record to have the same id, got `%s` and `%s`.''"

definition field_type_format :: string where
  "field_type_format = ''RelayModernRecord: Invalid field update, expected both versions of record `%s` to have the same `%s` but got conflicting types `%s` and `%s`. The GraphQL server likely violated the globally unique id requirement by returning the same id for different objects.''"

text \<open>
  One round of the loop of \<^verbatim>\<open>update\<close> over the entries of \<open>b\<close>; the loop carries the
  cell \<^verbatim>\<open>record\<close> (no copy yet, or the reference of the copy) and the store. The two
  lookups are compared by the structural \<^verbatim>\<open>!=\<close>, and only as long as there is no copy.
\<close>

fun update_iter ::
  "record_ref \<Rightarrow> record_ref \<Rightarrow> string \<times> value \<Rightarrow> record_ref option \<times> store
     \<Rightarrow> record_ref option \<times> store" where
  "update_iter a b (k, v) (record, s) =
     (if record \<noteq> None
         \<or> caml_notequal (Js_Dict_get (deref s a) k) (Js_Dict_get (deref s b) k) then
        (case record of
           None \<Rightarrow>
             (let (newRecord, s1) = clone s a;
                  s2 = dict_set s1 newRecord k v
              in (Some newRecord, s2))
         | Some r \<Rightarrow> (record, dict_set s r k v))
      else (record, s))"

definition update :: "store \<Rightarrow> record_ref \<Rightarrow> record_ref \<Rightarrow> record_ref \<times> store" where
  "update s a b =
     (let aId = getDataID s a; bId = getDataID s b;
          s1 = Warning_warning s (aId = bId) update_id_format [aId, bId];
          aType = getType s1 a; bType = getType s1 b;
          s2 = Warning_warning s1 (isClientID bId \<or> aType = bType) update_type_format
                 [bId, typename_key, aType, bType];
          (record, s3) = fold (update_iter a b) (Js_Dict_entries (deref s2 b)) (None, s2)
      in (case record of
            Some newRecord \<Rightarrow> (newRecord, s3)
          | None \<Rightarrow> (a, s3)))"

definition merge :: "store \<Rightarrow> record_ref \<Rightarrow> record_ref \<Rightarrow> record_ref \<times> store" where
  "merge s a b =
     (let aId = getDataID s a; bId = getDataID s b;
          s1 = Warning_warning s (aId = bId) merge_id_format [aId, bId];
          aType = getType s1 a; bType = getType s1 b;
          s2 = Warning_warning s1 (isClientID bId \<or> aType = bType) merge_type_format
                 [bId, typename_key, aType, bType];
          (merged, s3) = clone s2 a
      in (merged,
          fold (\<lambda>(k, v) s'. dict_set s' merged k v) (Js_Dict_entries (deref s3 b)) s3))"

definition setValue ::
  "store \<Rightarrow> record_ref \<Rightarrow> string \<Rightarrow> jsval \<Rightarrow> (js_exn + unit) \<times> store" where
  "setValue s r key valueObj =
     (case (if JNull = valueObj then Inr Null
            else if JUndefined = valueObj then Inr Undefined
            else (case Js_Nullable_toOption valueObj of
                    Some v \<Rightarrow> transformValueFromObj v
                  | None \<Rightarrow> Inr Undefined)) of
        Inl e \<Rightarrow> (Inl e, s)
      | Inr val \<Rightarrow>
          (let s1 =
             (case val of
                String v \<Rightarrow>
                  (if key = id_key then
                     (let prevId = getDataID s r
                      in Warning_warning s (prevId = v) field_id_format [prevId, v])
                   else if key = typename_key then
                     (let prevID = getDataID s r; prevType = getType s r; nextType = v
                      in Warning_warning s (isClientID prevID \<or> prevType = nextType)
                           field_type_format [prevID, typename_key, prevType, nextType])
                   else s)
              | _ \<Rightarrow> s)
           in (case Js_Dict_get (deref s1 r) frozen_key of
                 Some (Bool True) \<Rightarrow> (Inl (TypeError ''Record is frozen''), s1)
               | _ \<Rightarrow> (Inr (), dict_set s1 r key val))))"

definition setLinkedRecordID :: "store \<Rightarrow> record_ref \<Rightarrow> string \<Rightarrow> string \<Rightarrow> store" where
  "setLinkedRecordID s record key id' = dict_set s record key (Ref id')"

definition setLinkedRecordIDs ::
  "store \<Rightarrow> record_ref \<Rightarrow> string \<Rightarrow> string option list \<Rightarrow> store" where
  "setLinkedRecordIDs s record key refs = dict_set s record key (Refs refs)"

definition toObj :: "store \<Rightarrow> record_ref nullable \<Rightarrow> recordObj" where
  "toObj s r =
     (case r of
        Nullable_return record \<Rightarrow>
          fold (\<lambda>(k, v) recordObj.
                  if k \<noteq> frozen_key then Js_Dict_set recordObj k (transformValueToObj v)
                  else recordObj)
            (Js_Dict_entries (deref s record)) Js_Dict_empty
      | _ \<Rightarrow> Js_Dict_empty)"

text \<open>The loop of \<^verbatim>\<open>fromObj\<close>; an exception of the conversion ends it.\<close>

fun fromObj_iter ::
  "record_ref \<Rightarrow> recordObj \<Rightarrow> store \<Rightarrow> (js_exn + unit) \<times> store" where
  "fromObj_iter record [] s = (Inr (), s)"
| "fromObj_iter record ((k, v) # es) s =
     (if v = JNull then fromObj_iter record es (dict_set s record k Null)
      else
        (case Js_Nullable_toOption v of
           Some val \<Rightarrow>
             (case transformValueFromObj val of
                Inl e \<Rightarrow> (Inl e, s)
              | Inr x \<Rightarrow> fromObj_iter record es (dict_set s record k x))
         | None \<Rightarrow> fromObj_iter record es (dict_set s record k Undefined)))"

definition fromObj :: "store \<Rightarrow> recordObj \<Rightarrow> (js_exn + record_ref) \<times> store" where
  "fromObj s recordObj =
     (let (record, s1) = alloc s Js_Dict_empty
      in (case fromObj_iter record (Js_Dict_entries recordObj) s1 of
            (Inl e, s2) \<Rightarrow> (Inl e, s2)
          | (Inr u, s2) \<Rightarrow> (Inr record, s2)))"

subsection \<open>Notions used in the statements\<close>

definition well_formed :: "store \<Rightarrow> bool" where
  \<comment> \<open>no object has two entries with the same key\<close>
  "well_formed s = (\<forall>d \<in> set (heap s). distinct (map fst d))"

definition without_frozen :: "recordDict \<Rightarrow> recordDict" where
  \<comment> \<open>the entries other than the frozen marker\<close>
  "without_frozen d = filter (\<lambda>(k, v). k \<noteq> frozen_key) d"

definition clone_entries :: "recordDict \<Rightarrow> recordDict" where
  \<comment> \<open>the entries that the loop of \<^verbatim>\<open>clone\<close> writes into the empty object\<close>
  "clone_entries d =
     fold (\<lambda>(k, v) c. if k \<noteq> frozen_key then Js_Dict_set c k v else c) d []"

definition same_at :: "store \<Rightarrow> record_ref \<Rightarrow> record_ref \<Rightarrow> string \<times> value \<Rightarrow> bool" where
  \<comment> \<open>the test of \<^verbatim>\<open>update\<close> on one entry of \<open>b\<close> finds no difference\<close>
  "same_at s a b e =
     (\<not> caml_notequal (Js_Dict_get (deref s a) (fst e)) (Js_Dict_get (deref s b) (fst e)))"




subsection \<open>Operands of the structural comparison\<close>






subsection \<open>Example stores\<close>

text \<open>
  Object 0 is a frozen record, object 1 the same record with a field \<^verbatim>\<open>name\<close> and no
  frozen marker, object 2 the same record without the marker.
\<close>

definition store_ex :: store where
  "store_ex =
     \<lparr>heap =
        [[(id_key, String ''4''), (typename_key, String ''User''), (frozen_key, Bool True)],
         [(id_key, String ''4''), (typename_key, String ''User''), (''name'', String ''Zuck'')],
         [(id_key, String ''4''), (typename_key, String ''User'')]],
      warnings = []\<rparr>"


definition store_empty :: store where
  "store_empty = \<lparr>heap = [], warnings = []\<rparr>"

text \<open>The record of the test suite: a name, a null field, an undefined field, a link and
  a plural link with a null slot.\<close>

definition store_user :: store where
  "store_user =
     \<lparr>heap =
        [[(id_key, String ''4''), (typename_key, String ''User''), (''name'', String ''Mark''),
          (''enemies'', Null), (''age'', Undefined), (''hometown'', Ref ''mpk''),
          (''friends'', Refs [Some ''beast'', Some ''greg'', None])]],
      warnings = []\<rparr>"

definition store_frozen :: store where
  "store_frozen = freeze store_user 0"

text \<open>Object 0 has a client-generated id, object 1 a server id; both have the type
  \<^verbatim>\<open>Number\<close>.\<close>

definition store_numbers :: store where
  "store_numbers =
     \<lparr>heap =
        [[(id_key, String ''client:42''), (typename_key, String ''Number'')],
         [(id_key, String ''42''), (typename_key, String ''Number'')]],
      warnings = []\<rparr>"

subsection \<open>Kinds of values and of failures\<close>

definition scalar_value :: "value \<Rightarrow> bool" where
  \<comment> \<open>a stored value that is neither null, nor undefined, nor a link\<close>
  "scalar_value v =
     (case v of
        String s \<Rightarrow> True
      | Int' i \<Rightarrow> True
      | Float f \<Rightarrow> True
      | Bool b \<Rightarrow> True
      | Custom c \<Rightarrow> True
      | Array a \<Rightarrow> True
      | _ \<Rightarrow> False)"

definition link_wrapper :: "jsval \<Rightarrow> bool" where
  \<comment> \<open>an object that the conversion reads as a link: exactly one of \<^verbatim>\<open>__ref\<close>, \<^verbatim>\<open>__refs\<close>\<close>
  "link_wrapper x =
     (case (Js_Dict_get_ref x, Js_Dict_get_refs x) of
        (Some a, None) \<Rightarrow> True
      | (None, Some a) \<Rightarrow> True
      | _ \<Rightarrow> False)"

text \<open>
  The values that the module itself puts into a record: null and undefined, and the
  results of \<^verbatim>\<open>transformValueFromObj\<close> (lemma \<open>transformValueFromObj_boundary\<close>). An
  integer number is stored as \<open>Int'\<close>, never as \<open>Float\<close>; an array or an object that is
  not a link is stored as \<open>Custom\<close>; \<open>Array\<close> is never built, since \<^verbatim>\<open>Js.typeof\<close> never
  answers \<^verbatim>\<open>array\<close>.
\<close>

fun boundary_value :: "value \<Rightarrow> bool" where
  "boundary_value (Float n) = (case n of Integer i \<Rightarrow> False | NonInteger x \<Rightarrow> True)"
| "boundary_value (Custom c) = (Js_typeof c = ''object'' \<and> c \<noteq> JNull \<and> \<not> link_wrapper c)"
| "boundary_value (Array vs) = False"
| "boundary_value v = True"

text \<open>
  The two fatal conditions of the record module, as the code raises them: a read through
  the wrong accessor raises a JavaScript \<^verbatim>\<open>Error\<close> (\<^verbatim>\<open>Js.Exn.raiseError\<close>), a write to a
  frozen record raises a \<^verbatim>\<open>TypeError\<close> (\<^verbatim>\<open>Js.Exn.raiseTypeError\<close>).
\<close>

definition TypeMismatch :: "js_exn + 'a \<Rightarrow> bool" where
  "TypeMismatch res = (case res of Inl (Error m) \<Rightarrow> True | _ \<Rightarrow> False)"

definition FrozenRecordMutation :: "js_exn + 'a \<Rightarrow> bool" where
  "FrozenRecordMutation res = (case res of Inl (TypeError m) \<Rightarrow> True | _ \<Rightarrow> False)"

section \<open>Auxiliary facts\<close>

lemma heap_dict_set: "heap (dict_set s r k v) = (heap s)[r := Js_Dict_set (heap s ! r) k v]"
  by (simp add: dict_set_def deref_def)

lemma warnings_dict_set: "warnings (dict_set s r k v) = warnings s"
  by (simp add: dict_set_def)

lemma fold_dict_set:
  "r < length (heap s) \<Longrightarrow>
   fold (\<lambda>(k, v) s'. if P k then dict_set s' r k v else s') es s =
   s\<lparr>heap := (heap s)[r := fold (\<lambda>(k, v) d. if P k then Js_Dict_set d k v else d) es (heap s ! r)]\<rparr>"
proof (induction es arbitrary: s)
  case Nil
  then show ?case by simp
next
  case (Cons e es)
  obtain k v where e: "e = (k, v)" by (cases e)
  show ?case
  proof (cases "P k")
    case True
    have len: "r < length (heap (dict_set s r k v))"
      using Cons.prems by (simp add: heap_dict_set)
    have "fold (\<lambda>(k, v) s'. if P k then dict_set s' r k v else s') (e # es) s =
          fold (\<lambda>(k, v) s'. if P k then dict_set s' r k v else s') es (dict_set s r k v)"
      using True by (simp add: e)
    also have "\<dots> = (dict_set s r k v)\<lparr>heap := (heap (dict_set s r k v))
        [r := fold (\<lambda>(k, v) d. if P k then Js_Dict_set d k v else d) es
                (heap (dict_set s r k v) ! r)]\<rparr>"
      by (rule Cons.IH [OF len])
    also have "\<dots> = s\<lparr>heap := (heap s)
        [r := fold (\<lambda>(k, v) d. if P k then Js_Dict_set d k v else d) (e # es) (heap s ! r)]\<rparr>"
      using Cons.prems True by (simp add: e dict_set_def deref_def)
    finally show ?thesis .
  next
    case False
    then show ?thesis
      using Cons.prems by (simp add: e Cons.IH)
  qed
qed

lemma fold_dict_set_all:
  "r < length (heap s) \<Longrightarrow>
   fold (\<lambda>(k, v) s'. dict_set s' r k v) es s =
   s\<lparr>heap := (heap s)[r := overlay (heap s ! r) es]\<rparr>"
  using fold_dict_set [of r s "\<lambda>k. True" es] by (simp add: overlay_def)

lemma fold_set_fresh:
  "distinct (map fst es) \<Longrightarrow> fst ` set es \<inter> fst ` set d = {} \<Longrightarrow>
   fold (\<lambda>(k, v) d. if P k then Js_Dict_set d k v else d) es d = d @ filter (\<lambda>(k, v). P k) es"
proof (induction es arbitrary: d)
  case Nil
  then show ?case by simp
next
  case (Cons e es)
  obtain k v where e: "e = (k, v)" by (cases e)
  have notin: "k \<notin> fst ` set d" using Cons.prems e by auto
  have upd: "AList.update k v d = d @ [(k, v)]"
    using notin by (induction d) auto
  show ?case
  proof (cases "P k")
    case True
    have "fst ` set es \<inter> fst ` set (d @ [(k, v)]) = {}"
      using Cons.prems e by auto
    then show ?thesis
      using Cons.prems True e upd Cons.IH [of "d @ [(k, v)]"]
      by (simp add: Js_Dict_set_def)
  next
    case False
    have "fst ` set es \<inter> fst ` set d = {}"
      using Cons.prems by auto
    then show ?thesis
      using Cons.prems False e Cons.IH [of d] by simp
  qed
qed

lemma clone_eq:
  assumes "live s r"
  shows "clone s r =
    (length (heap s),
     s\<lparr>heap := heap s @ [fold (\<lambda>(k, v) d. if k \<noteq> frozen_key then Js_Dict_set d k v else d)
                           (heap s ! r) []]\<rparr>)"
proof -
  let ?s1 = "s\<lparr>heap := heap s @ [[]]\<rparr>"
  have len: "length (heap s) < length (heap ?s1)" by simp
  have r: "heap ?s1 ! r = heap s ! r"
    using assms by (simp add: live_def nth_append)
  show ?thesis
    using fold_dict_set [OF len, of "\<lambda>k. k \<noteq> frozen_key" "heap s ! r"] r
    by (simp add: clone_def alloc_def Js_Dict_empty_def Js_Dict_entries_def deref_def)
qed

lemma clone_eq_wf:
  assumes "live s r" and "distinct (map fst (heap s ! r))"
  shows "clone s r = (length (heap s), s\<lparr>heap := heap s @ [without_frozen (deref s r)]\<rparr>)"
  using fold_set_fresh [of "heap s ! r" "[]" "\<lambda>k. k \<noteq> frozen_key"] assms
  by (simp add: clone_eq without_frozen_def deref_def)

lemma clone_entries_wf: "distinct (map fst d) \<Longrightarrow> clone_entries d = without_frozen d"
  using fold_set_fresh [of d "[]" "\<lambda>k. k \<noteq> frozen_key"]
  by (simp add: clone_entries_def without_frozen_def)

lemma clone_eq': "live s r \<Longrightarrow>
  clone s r = (length (heap s), s\<lparr>heap := heap s @ [clone_entries (deref s r)]\<rparr>)"
  by (simp add: clone_eq clone_entries_def deref_def)

lemma update_iter_Some:
  "n < length (heap s) \<Longrightarrow>
   fold (update_iter a b) es (Some n, s) =
   (Some n, s\<lparr>heap := (heap s)[n := overlay (heap s ! n) es]\<rparr>)"
proof (induction es arbitrary: s)
  case Nil
  then show ?case by (simp add: overlay_def)
next
  case (Cons e es)
  obtain k v where e: "e = (k, v)" by (cases e)
  have len: "n < length (heap (dict_set s n k v))"
    using Cons.prems by (simp add: heap_dict_set)
  have "fold (update_iter a b) (e # es) (Some n, s) =
        fold (update_iter a b) es (Some n, dict_set s n k v)"
    by (simp add: e)
  also have "\<dots> = (Some n, (dict_set s n k v)\<lparr>heap := (heap (dict_set s n k v))
        [n := overlay (heap (dict_set s n k v) ! n) es]\<rparr>)"
    by (rule Cons.IH [OF len])
  also have "\<dots> = (Some n, s\<lparr>heap := (heap s)[n := overlay (heap s ! n) (e # es)]\<rparr>)"
    using Cons.prems by (simp add: e dict_set_def deref_def overlay_def)
  finally show ?case .
qed

lemma update_iter_None:
  assumes "live s a"
  shows "fold (update_iter a b) es (None, s) =
    (case dropWhile (same_at s a b) es of
       [] \<Rightarrow> (None, s)
     | z # zs \<Rightarrow>
         (Some (length (heap s)),
          s\<lparr>heap := heap s @ [overlay (clone_entries (deref s a)) (z # zs)]\<rparr>))"
proof (induction es)
  case Nil
  then show ?case by simp
next
  case (Cons e es)
  obtain k v where e: "e = (k, v)" by (cases e)
  show ?case
  proof (cases "same_at s a b e")
    case True
    then have "fold (update_iter a b) (e # es) (None, s) = fold (update_iter a b) es (None, s)"
      by (simp add: e same_at_def)
    then show ?thesis using True Cons.IH by simp
  next
    case False
    let ?c = "clone_entries (deref s a)"
    let ?s2 = "s\<lparr>heap := heap s @ [Js_Dict_set ?c k v]\<rparr>"
    have step: "update_iter a b e (None, s) = (Some (length (heap s)), ?s2)"
      using False assms by (simp add: e same_at_def clone_eq' dict_set_def deref_def)
    have len: "length (heap s) < length (heap ?s2)" by simp
    have "fold (update_iter a b) (e # es) (None, s) =
          fold (update_iter a b) es (Some (length (heap s)), ?s2)"
      using step by simp
    also have "\<dots> = (Some (length (heap s)),
        ?s2\<lparr>heap := (heap ?s2)[length (heap s) := overlay (heap ?s2 ! length (heap s)) es]\<rparr>)"
      by (rule update_iter_Some [OF len])
    also have "\<dots> = (Some (length (heap s)), s\<lparr>heap := heap s @ [overlay ?c (e # es)]\<rparr>)"
      by (simp add: e overlay_def)
    finally show ?thesis using False by simp
  qed
qed

lemma heap_Warning_warning: "heap (Warning_warning s c f args) = heap s"
  by (simp add: Warning_warning_def)

lemma deref_Warning_warning: "deref (Warning_warning s c f args) r = deref s r"
  by (simp add: deref_def heap_Warning_warning)

lemma live_Warning_warning: "live (Warning_warning s c f args) r = live s r"
  by (simp add: live_def heap_Warning_warning)

lemma same_at_Warning_warning: "same_at (Warning_warning s c f args) a b = same_at s a b"
  by (simp add: same_at_def deref_Warning_warning fun_eq_iff)

lemma update_eq:
  assumes "live s a"
  shows "fst (update s a b) =
           (if dropWhile (same_at s a b) (deref s b) = [] then a else length (heap s))"
    and "heap (snd (update s a b)) =
           (if dropWhile (same_at s a b) (deref s b) = [] then heap s
            else heap s @ [overlay (clone_entries (deref s a))
                             (dropWhile (same_at s a b) (deref s b))])"
proof -
  let ?s1 = "Warning_warning s (getDataID s a = getDataID s b) update_id_format
               [getDataID s a, getDataID s b]"
  let ?s2 = "Warning_warning ?s1 (isClientID (getDataID s b) \<or> getType ?s1 a = getType ?s1 b)
               update_type_format [getDataID s b, typename_key, getType ?s1 a, getType ?s1 b]"
  have live2: "live ?s2 a" using assms by (simp add: live_Warning_warning)
  have e1: "deref ?s2 = deref s"
    by (simp add: fun_eq_iff deref_Warning_warning)
  have e2: "same_at ?s2 a b = same_at s a b"
    by (simp add: same_at_Warning_warning)
  have e3: "heap ?s2 = heap s"
    by (simp add: heap_Warning_warning)
  have u: "update s a b =
     (case fold (update_iter a b) (deref ?s2 b) (None, ?s2) of
        (Some newRecord, s3) \<Rightarrow> (newRecord, s3)
      | (None, s3) \<Rightarrow> (a, s3))"
    by (simp add: update_def Let_def Js_Dict_entries_def split: prod.splits option.splits)
  have f: "fold (update_iter a b) (deref ?s2 b) (None, ?s2) =
    (case dropWhile (same_at s a b) (deref s b) of
       [] \<Rightarrow> (None, ?s2)
     | z # zs \<Rightarrow>
         (Some (length (heap s)),
          ?s2\<lparr>heap := heap s @ [overlay (clone_entries (deref s a)) (z # zs)]\<rparr>))"
    using update_iter_None [OF live2, of b "deref ?s2 b"] unfolding e1 e2 e3 .
  show "fst (update s a b) =
           (if dropWhile (same_at s a b) (deref s b) = [] then a else length (heap s))"
    by (cases "dropWhile (same_at s a b) (deref s b)")
       (simp_all add: u f del: dropWhile_eq_Nil_conv)
  show "heap (snd (update s a b)) =
           (if dropWhile (same_at s a b) (deref s b) = [] then heap s
            else heap s @ [overlay (clone_entries (deref s a))
                             (dropWhile (same_at s a b) (deref s b))])"
    by (cases "dropWhile (same_at s a b) (deref s b)")
       (simp_all add: u f heap_Warning_warning del: dropWhile_eq_Nil_conv)
qed

lemma merge_eq:
  assumes "live s a" and "live s b"
  shows "fst (merge s a b) = length (heap s)"
    and "heap (snd (merge s a b)) = heap s @ [overlay (clone_entries (deref s a)) (deref s b)]"
proof -
  let ?s1 = "Warning_warning s (getDataID s a = getDataID s b) merge_id_format
               [getDataID s a, getDataID s b]"
  let ?s2 = "Warning_warning ?s1 (isClientID (getDataID s b) \<or> getType ?s1 a = getType ?s1 b)
               merge_type_format [getDataID s b, typename_key, getType ?s1 a, getType ?s1 b]"
  let ?s3 = "?s2\<lparr>heap := heap s @ [clone_entries (deref s a)]\<rparr>"
  have live2: "live ?s2 a" using assms by (simp add: live_Warning_warning)
  have c: "clone ?s2 a = (length (heap s), ?s3)"
    using clone_eq' [OF live2] by (simp add: heap_Warning_warning deref_Warning_warning)
  have b3: "deref ?s3 b = deref s b"
    using assms by (simp add: deref_def live_def nth_append)
  have len: "length (heap s) < length (heap ?s3)" by simp
  have m: "merge s a b =
     (length (heap s), fold (\<lambda>(k, v) s'. dict_set s' (length (heap s)) k v) (deref s b) ?s3)"
    using c b3 by (simp add: merge_def Let_def Js_Dict_entries_def)
  show "fst (merge s a b) = length (heap s)" by (simp add: m)
  show "heap (snd (merge s a b)) = heap s @ [overlay (clone_entries (deref s a)) (deref s b)]"
    by (simp add: m fold_dict_set_all [OF len])
qed

lemma get_overlay:
  "distinct (map fst es) \<Longrightarrow>
   Js_Dict_get (overlay d es) k =
     (case Js_Dict_get es k of Some v \<Rightarrow> Some v | None \<Rightarrow> Js_Dict_get d k)"
proof (induction es arbitrary: d)
  case Nil
  then show ?case by (simp add: overlay_def Js_Dict_get_def)
next
  case (Cons e es)
  obtain k' v' where e: "e = (k', v')" by (cases e)
  have d: "distinct (map fst es)" and notin: "k' \<notin> fst ` set es"
    using Cons.prems e by auto
  have none: "map_of es k' = None"
    using notin by (simp add: map_of_eq_None_iff)
  have "Js_Dict_get (overlay d (e # es)) k = Js_Dict_get (overlay (Js_Dict_set d k' v') es) k"
    by (simp add: overlay_def e)
  also have "\<dots> = (case Js_Dict_get es k of Some v \<Rightarrow> Some v
                     | None \<Rightarrow> Js_Dict_get (Js_Dict_set d k' v') k)"
    by (rule Cons.IH [OF d])
  also have "\<dots> = (case Js_Dict_get (e # es) k of Some v \<Rightarrow> Some v | None \<Rightarrow> Js_Dict_get d k)"
    using none by (simp add: e Js_Dict_get_def Js_Dict_set_def update_conv' split: option.splits)
  finally show ?case .
qed

lemma distinct_overlay:
  "distinct (map fst d) \<Longrightarrow> distinct (map fst (overlay d es))"
proof (induction es arbitrary: d)
  case Nil
  then show ?case by (simp add: overlay_def)
next
  case (Cons e es)
  obtain k' v' where e: "e = (k', v')" by (cases e)
  have "distinct (map fst (Js_Dict_set d k' v'))"
    using Cons.prems by (simp add: Js_Dict_set_def distinct_update)
  then have "distinct (map fst (overlay (Js_Dict_set d k' v') es))"
    by (rule Cons.IH)
  then show ?case by (simp add: overlay_def e)
qed

lemma distinct_without_frozen:
  "distinct (map fst d) \<Longrightarrow> distinct (map fst (without_frozen d))"
  by (simp add: without_frozen_def distinct_map_filter)

lemma get_without_frozen:
  "Js_Dict_get (without_frozen d) k = (if k = frozen_key then None else Js_Dict_get d k)"
  by (induction d) (auto simp: without_frozen_def Js_Dict_get_def)

lemma deep_equal_iff:
  "distinct (map fst d1) \<Longrightarrow> distinct (map fst d2) \<Longrightarrow>
   deep_equal d1 d2 = (\<forall>k. Js_Dict_get d1 k = Js_Dict_get d2 k)"
  using map_of_inject_set [of d1 d2]
  by (auto simp: deep_equal_def Js_Dict_get_def fun_eq_iff)




lemma wf_live: "well_formed s \<Longrightarrow> live s r \<Longrightarrow> distinct (map fst (deref s r))"
  by (simp add: well_formed_def live_def deref_def)








lemma get_fold_set:
  "distinct (map fst es) \<Longrightarrow>
   Js_Dict_get (fold (\<lambda>(k, v) d. if P k then Js_Dict_set d k v else d) es d) k =
     (case Js_Dict_get es k of
        Some v \<Rightarrow> if P k then Some v else Js_Dict_get d k
      | None \<Rightarrow> Js_Dict_get d k)"
proof (induction es arbitrary: d)
  case Nil
  then show ?case by (simp add: Js_Dict_get_def)
next
  case (Cons e es)
  obtain k' v' where e: "e = (k', v')" by (cases e)
  have d: "distinct (map fst es)" and notin: "k' \<notin> fst ` set es"
    using Cons.prems e by auto
  have none: "map_of es k' = None"
    using notin by (simp add: map_of_eq_None_iff)
  let ?F = "\<lambda>(k, v) d. if P k then Js_Dict_set d k v else d"
  let ?d' = "if P k' then Js_Dict_set d k' v' else d"
  have "Js_Dict_get (fold ?F (e # es) d) k = Js_Dict_get (fold ?F es ?d') k"
    by (simp add: e)
  also have "\<dots> = (case Js_Dict_get es k of
        Some v \<Rightarrow> if P k then Some v else Js_Dict_get ?d' k
      | None \<Rightarrow> Js_Dict_get ?d' k)"
    by (rule Cons.IH [OF d])
  also have "\<dots> = (case Js_Dict_get (e # es) k of
        Some v \<Rightarrow> if P k then Some v else Js_Dict_get d k
      | None \<Rightarrow> Js_Dict_get d k)"
    using none
    by (auto simp: e Js_Dict_get_def Js_Dict_set_def update_conv' split: option.splits)
  finally show ?case .
qed

lemma copyFields_eq:
  assumes "live s b"
  shows "copyFields s a b =
    s\<lparr>heap := (heap s)[b :=
        fold (\<lambda>(k, v) d. if k \<noteq> id_key \<and> k \<noteq> typename_key then Js_Dict_set d k v else d)
          (deref s a) (deref s b)]\<rparr>"
  using fold_dict_set [of b s "\<lambda>k. k \<noteq> id_key \<and> k \<noteq> typename_key" "deref s a"] assms
  by (simp add: copyFields_def Js_Dict_entries_def live_def deref_def)

lemma keys_fold_set:
  "fst ` set (fold (\<lambda>(k, v) d. if P k then Js_Dict_set d k (f v) else d) es d)
     \<subseteq> fst ` set d \<union> {k \<in> fst ` set es. P k}"
proof (induction es arbitrary: d)
  case Nil
  then show ?case by simp
next
  case (Cons e es)
  obtain k' v' where e: "e = (k', v')" by (cases e)
  show ?case
  proof (cases "P k'")
    case True
    have "fst ` set (Js_Dict_set d k' (f v')) = {k'} \<union> fst ` set d"
      by (simp add: Js_Dict_set_def dom_update)
    then show ?thesis
      using Cons.IH [of "Js_Dict_set d k' (f v')"] True by (auto simp: e)
  next
    case False
    then show ?thesis
      using Cons.IH [of d] by (auto simp: e)
  qed
qed

lemma transformValueFromObj_cases:
  "transformValueFromObj (JString x) = Inr (String x)"
  "transformValueFromObj (JBoolean b) = Inr (Bool b)"
  "transformValueFromObj (JNumber (Integer i)) = Inr (Int' i)"
  "transformValueFromObj (JNumber (NonInteger f)) = Inr (Float (NonInteger f))"
  "transformValueFromObj (JArray xs) = Inr (Custom (JArray xs))"
  "transformValueFromObj (JObject (Some a) None ps) = Inr (Ref a)"
  "transformValueFromObj (JObject None (Some rs) ps) = Inr (Refs rs)"
  "transformValueFromObj (JObject None None ps) = Inr (Custom (JObject None None ps))"
  "transformValueFromObj (JObject (Some a) (Some rs) ps) = Inr (Custom (JObject (Some a) (Some rs) ps))"
  "transformValueFromObj JNull = Inl in_null_error"
  "transformValueFromObj JUndefined = Inl (unhandled_error JUndefined)"
  "transformValueFromObj JFunction = Inl (unhandled_error JFunction)"
  "transformValueFromObj JSymbol = Inl (unhandled_error JSymbol)"
  by (simp_all add: transformValueFromObj.simps)

lemma transformValueToObj_inverse:
  assumes "transformValueFromObj x = Inr v" and "\<not> link_wrapper x"
  shows "transformValueToObj v = x"
proof (cases x)
  case (JNumber n)
  then show ?thesis using assms by (cases n) (auto simp: transformValueFromObj_cases)
next
  case (JObject a b ps)
  then show ?thesis
    using assms by (cases a; cases b) (auto simp: transformValueFromObj_cases link_wrapper_def)
qed (use assms in \<open>auto simp: transformValueFromObj_cases\<close>)

lemma not_link_wrapper_scalar:
  assumes "transformValueFromObj x = Inr v" and "\<not> link_wrapper x"
  shows "scalar_value v"
proof (cases x)
  case (JNumber n)
  then show ?thesis using assms by (cases n) (auto simp: transformValueFromObj_cases scalar_value_def)
next
  case (JObject a b ps)
  then show ?thesis
    using assms
    by (cases a; cases b) (auto simp: transformValueFromObj_cases link_wrapper_def scalar_value_def)
qed (use assms in \<open>auto simp: transformValueFromObj_cases scalar_value_def\<close>)

lemma get_dict_set:
  "live s r \<Longrightarrow> Js_Dict_get (deref (dict_set s r k v) r) k = Some v"
  by (simp add: live_def dict_set_def deref_def Js_Dict_get_def Js_Dict_set_def update_conv')

lemma setValue_Inr:
  assumes "setValue s r key x = (Inr (), s')"
  shows "\<exists>val s1. (x = JNull \<and> val = Null \<or> x = JUndefined \<and> val = Undefined
                  \<or> x \<noteq> JNull \<and> x \<noteq> JUndefined \<and> transformValueFromObj x = Inr val)
               \<and> heap s1 = heap s \<and> s' = dict_set s1 r key val"
proof -
  let ?conv = "if JNull = x then Inr Null
            else if JUndefined = x then Inr Undefined
            else (case Js_Nullable_toOption x of
                    Some v \<Rightarrow> transformValueFromObj v
                  | None \<Rightarrow> Inr Undefined)"
  obtain val where conv: "?conv = Inr val"
    using assms by (cases ?conv) (simp_all add: setValue_def)
  define s1 where "s1 =
             (case val of
                String v \<Rightarrow>
                  (if key = id_key then
                     (let prevId = getDataID s r
                      in Warning_warning s (prevId = v) field_id_format [prevId, v])
                   else if key = typename_key then
                     (let prevID = getDataID s r; prevType = getType s r; nextType = v
                      in Warning_warning s (isClientID prevID \<or> prevType = nextType)
                           field_type_format [prevID, typename_key, prevType, nextType])
                   else s)
              | _ \<Rightarrow> s)"
  have h1: "heap s1 = heap s"
    unfolding s1_def by (cases val) (simp_all add: Let_def heap_Warning_warning)
  have sv: "setValue s r key x =
      (case Js_Dict_get (deref s1 r) frozen_key of
         Some (Bool True) \<Rightarrow> (Inl (TypeError ''Record is frozen''), s1)
       | _ \<Rightarrow> (Inr (), dict_set s1 r key val))"
    unfolding setValue_def conv s1_def by (simp add: Let_def)
  have s': "s' = dict_set s1 r key val"
  proof (cases "Js_Dict_get (deref s1 r) frozen_key = Some (Bool True)")
    case True
    then show ?thesis using assms unfolding sv by simp
  next
    case False
    then have "setValue s r key x = (Inr (), dict_set s1 r key val)"
      unfolding sv by (simp split: option.splits "value.splits" bool.splits)
    then show ?thesis using assms by simp
  qed
  have "x = JNull \<and> val = Null \<or> x = JUndefined \<and> val = Undefined
      \<or> x \<noteq> JNull \<and> x \<noteq> JUndefined \<and> transformValueFromObj x = Inr val"
    using conv by (cases x) (auto split: if_splits)
  then show ?thesis using h1 s' by blast
qed

lemma getValue_message:
  assumes "getValue s r key = Inl e"
  shows "\<exists>p t. e = Error (p @ getDataID s r @ ''.'' @ key @ t)
           \<and> t \<in> {''` but found a linked record.'', ''` but found plural linked records.''}"
proof (cases "Js_Dict_get (deref s r) key")
  case None
  then show ?thesis using assms by (simp add: getValue_def)
next
  case (Some v)
  let ?p = "''RelayModernRecord.getValue(): Expected a scalar (non-link) value for `''"
  show ?thesis
  proof (cases v)
    case (Ref x)
    then have "e = Error (?p @ getDataID s r @ ''.'' @ key @ ''` but found a linked record.'')"
      using assms Some by (simp add: getValue_def)
    then show ?thesis by blast
  next
    case (Refs x)
    then have "e = Error (?p @ getDataID s r @ ''.'' @ key
        @ ''` but found plural linked records.'')"
      using assms Some by (simp add: getValue_def)
    then show ?thesis by blast
  qed (use assms Some in \<open>simp_all add: getValue_def\<close>)
qed

lemma getLinkedRecordIDs_message:
  assumes "getLinkedRecordIDs s r key = Inl e"
  shows "\<exists>p q v. e = Error (p @ getDataID s r @ ''.'' @ key @ q @ valueFormatted v @ ''`.'')
           \<and> Js_Dict_get (deref s r) key = Some v"
proof (cases "Js_Dict_get (deref s r) key")
  case None
  then show ?thesis using assms by (simp add: getLinkedRecordIDs_def)
next
  case (Some v)
  have "e = Error (''RelayModernRecord.getLinkedRecordIDs(): Expected `'' @ getDataID s r
            @ ''.'' @ key @ ''` to contain an array of linked IDs, got `''
            @ valueFormatted v @ ''`.'')"
    using assms Some by (cases v) (simp_all add: getLinkedRecordIDs_def)
  then show ?thesis using Some by blast
qed

lemma getType_dict_set:
  "live s r \<Longrightarrow> getType (dict_set s r typename_key (String t)) r = t"
  by (simp add: getType_def get_dict_set)

lemma setValue_typename:
  "setValue s r typename_key (JString t) =
     (let s1 = Warning_warning s (isClientID (getDataID s r) \<or> getType s r = t)
                 field_type_format [getDataID s r, typename_key, getType s r, t]
      in if isFrozen s r then (Inl (TypeError ''Record is frozen''), s1)
         else (Inr (), dict_set s1 r typename_key (String t)))"
proof -
  have ne: "typename_key \<noteq> id_key"
    by (simp add: typename_key_def id_key_def)
  have fr: "isFrozen s r = (Js_Dict_get (deref s r) frozen_key = Some (Bool True))"
    by (auto simp: isFrozen_def split: option.splits "value.splits")
  show ?thesis
    by (simp add: setValue_def transformValueFromObj_cases ne Let_def fr deref_Warning_warning
        split: option.splits "value.splits" bool.splits)
qed

lemma transformValueFromObj_boundary:
  assumes "transformValueFromObj x = Inr v"
  shows "boundary_value v"
proof (cases x)
  case (JNumber n)
  then show ?thesis using assms by (cases n) (auto simp: transformValueFromObj_cases)
next
  case (JObject a b ps)
  then show ?thesis
    using assms by (cases a; cases b) (auto simp: transformValueFromObj_cases link_wrapper_def)
qed (use assms in \<open>auto simp: transformValueFromObj_cases link_wrapper_def\<close>)

lemma transformValueFromObj_inverse:
  assumes "boundary_value v" and "v \<noteq> Null" and "v \<noteq> Undefined"
  shows "transformValueFromObj (transformValueToObj v) = Inr v"
proof (cases v)
  case (Float n)
  then show ?thesis using assms by (cases n) (simp_all add: transformValueFromObj_cases)
next
  case (Custom c)
  show ?thesis
  proof (cases c)
    case (JObject a b ps)
    then show ?thesis
      using assms Custom
      by (cases a; cases b) (simp_all add: transformValueFromObj_cases link_wrapper_def)
  qed (use assms Custom in \<open>simp_all add: transformValueFromObj_cases\<close>)
qed (use assms in \<open>simp_all add: transformValueFromObj_cases\<close>)

lemma transformValueToObj_null:
  assumes "boundary_value v"
  shows "(transformValueToObj v = JNull) = (v = Null)"
    and "(transformValueToObj v = JUndefined) = (v = Undefined)"
  using assms by (cases v; auto)+

lemma fromObj_iter_step:
  assumes "boundary_value v"
  shows "fromObj_iter r ((k, transformValueToObj v) # es) s = fromObj_iter r es (dict_set s r k v)"
proof (cases "v = Null \<or> v = Undefined")
  case True
  then show ?thesis by auto
next
  case False
  then have n: "transformValueToObj v \<noteq> JNull" and u: "transformValueToObj v \<noteq> JUndefined"
    using transformValueToObj_null [OF assms] by simp_all
  have o: "Js_Nullable_toOption (transformValueToObj v) = Some (transformValueToObj v)"
    using n u by (cases "transformValueToObj v") simp_all
  have t: "transformValueFromObj (transformValueToObj v) = Inr v"
    using False by (simp add: transformValueFromObj_inverse [OF assms])
  show ?thesis using n o t by simp
qed

lemma fromObj_iter_to:
  assumes "\<forall>e \<in> set d. boundary_value (snd e)" and "r < length (heap s)"
  shows "fromObj_iter r (map (\<lambda>(k, v). (k, transformValueToObj v)) d) s =
    (Inr (), s\<lparr>heap := (heap s)[r := overlay (heap s ! r) d]\<rparr>)"
  using assms
proof (induction d arbitrary: s)
  case Nil
  then show ?case by (simp add: overlay_def)
next
  case (Cons e d)
  obtain k v where e: "e = (k, v)" by (cases e)
  have bv: "boundary_value v" using Cons.prems(1) e by simp
  have rest: "\<forall>e \<in> set d. boundary_value (snd e)" using Cons.prems(1) by simp
  have len: "r < length (heap (dict_set s r k v))"
    using Cons.prems(2) by (simp add: heap_dict_set)
  have "fromObj_iter r (map (\<lambda>(k, v). (k, transformValueToObj v)) (e # d)) s =
        fromObj_iter r (map (\<lambda>(k, v). (k, transformValueToObj v)) d) (dict_set s r k v)"
    unfolding e by (simp only: list.map prod.case fromObj_iter_step [OF bv])
  also have "\<dots> = (Inr (), (dict_set s r k v)\<lparr>heap := (heap (dict_set s r k v))
        [r := overlay (heap (dict_set s r k v) ! r) d]\<rparr>)"
    by (rule Cons.IH [OF rest len])
  also have "\<dots> = (Inr (), s\<lparr>heap := (heap s)[r := overlay (heap s ! r) (e # d)]\<rparr>)"
    using Cons.prems(2) by (simp add: e dict_set_def deref_def overlay_def)
  finally show ?case .
qed

lemma fold_set_map_fresh:
  "distinct (map fst es) \<Longrightarrow> fst ` set es \<inter> fst ` set d = {} \<Longrightarrow>
   fold (\<lambda>(k, v) d. if P k then Js_Dict_set d k (f v) else d) es d =
   d @ map (\<lambda>(k, v). (k, f v)) (filter (\<lambda>(k, v). P k) es)"
proof (induction es arbitrary: d)
  case Nil
  then show ?case by simp
next
  case (Cons e es)
  obtain k v where e: "e = (k, v)" by (cases e)
  have notin: "k \<notin> fst ` set d" using Cons.prems e by auto
  have upd: "AList.update k (f v) d = d @ [(k, f v)]"
    using notin by (induction d) auto
  show ?case
  proof (cases "P k")
    case True
    have "fst ` set es \<inter> fst ` set (d @ [(k, f v)]) = {}"
      using Cons.prems e by auto
    then show ?thesis
      using Cons.prems True e upd Cons.IH [of "d @ [(k, f v)]"]
      by (simp add: Js_Dict_set_def)
  next
    case False
    have "fst ` set es \<inter> fst ` set d = {}"
      using Cons.prems by auto
    then show ?thesis
      using Cons.prems False e Cons.IH [of d] by simp
  qed
qed

lemma toObj_eq:
  assumes "distinct (map fst (deref s r))"
  shows "toObj s (Nullable_return r) =
    map (\<lambda>(k, v). (k, transformValueToObj v)) (without_frozen (deref s r))"
  using fold_set_map_fresh [of "deref s r" "[]" "\<lambda>k. k \<noteq> frozen_key" transformValueToObj] assms
  by (simp add: toObj_def Js_Dict_entries_def Js_Dict_empty_def without_frozen_def)

lemma overlay_empty: "distinct (map fst d) \<Longrightarrow> overlay [] d = d"
  using fold_set_fresh [of d "[]" "\<lambda>k. True"] by (simp add: overlay_def)

lemma fromObj_toObj:
  assumes "well_formed s" and "live s r" and "\<forall>e \<in> set (deref s r). boundary_value (snd e)"
  shows "fromObj s (toObj s (Nullable_return r)) =
    (Inr (length (heap s)), s\<lparr>heap := heap s @ [without_frozen (deref s r)]\<rparr>)"
proof -
  let ?d = "without_frozen (deref s r)"
  let ?s1 = "s\<lparr>heap := heap s @ [[]]\<rparr>"
  have dr: "distinct (map fst (deref s r))" using assms by (simp add: wf_live)
  have dd: "distinct (map fst ?d)" by (rule distinct_without_frozen [OF dr])
  have bd: "\<forall>e \<in> set ?d. boundary_value (snd e)"
    using assms(3) by (simp add: without_frozen_def)
  have len: "length (heap s) < length (heap ?s1)" by simp
  have it: "fromObj_iter (length (heap s)) (map (\<lambda>(k, v). (k, transformValueToObj v)) ?d) ?s1 =
      (Inr (), ?s1\<lparr>heap := (heap ?s1)[length (heap s) := overlay (heap ?s1 ! length (heap s)) ?d]\<rparr>)"
    by (rule fromObj_iter_to [OF bd len])
  show ?thesis
    by (simp add: fromObj_def alloc_def Js_Dict_empty_def Js_Dict_entries_def toObj_eq [OF dr] it
        overlay_empty [OF dd])
qed

text \<open>
  The operations change the store through allocation, \<open>dict_set\<close> and the diagnostics
  sink only, and each of the three keeps a well-formed store well-formed.
\<close>

lemma well_formed_empty: "well_formed store_empty"
  by (simp add: well_formed_def store_empty_def)

lemma well_formed_alloc: "well_formed s \<Longrightarrow> well_formed (snd (alloc s Js_Dict_empty))"
  by (simp add: well_formed_def alloc_def Js_Dict_empty_def)

lemma well_formed_dict_set: "well_formed s \<Longrightarrow> well_formed (dict_set s r k v)"
proof -
  assume wf: "well_formed s"
  show ?thesis
  proof (cases "r < length (heap s)")
    case True
    then have "distinct (map fst (Js_Dict_set (deref s r) k v))"
      using wf by (simp add: well_formed_def deref_def Js_Dict_set_def distinct_update)
    then show ?thesis
      using wf set_update_subset_insert [of "heap s" r "Js_Dict_set (deref s r) k v"]
      by (auto simp: well_formed_def heap_dict_set deref_def)
  next
    case False
    then have "(heap s)[r := Js_Dict_set (heap s ! r) k v] = heap s"
      by (simp add: list_update_beyond)
    then show ?thesis using wf by (simp add: well_formed_def heap_dict_set)
  qed
qed

lemma well_formed_Warning_warning:
  "well_formed (Warning_warning s c f args) = well_formed s"
  by (simp add: well_formed_def heap_Warning_warning)

text \<open>The example stores are results of calls of the module on the empty store.\<close>

lemma store_user_built:
  "(case create store_empty (JString ''4'') ''User'' of
      (Inl e, s1) \<Rightarrow> None
    | (Inr r, s1) \<Rightarrow>
        (let (e2, s2) = setValue s1 r ''name'' (JString ''Mark'');
             (e3, s3) = setValue s2 r ''enemies'' JNull;
             (e4, s4) = setValue s3 r ''age'' JUndefined;
             s5 = setLinkedRecordID s4 r ''hometown'' ''mpk''
         in Some (setLinkedRecordIDs s5 r ''friends'' [Some ''beast'', Some ''greg'', None])))
   = Some store_user"
  by (simp add: store_user_def store_empty_def create_def create_id_def alloc_def
      Js_Dict_empty_def Let_def dict_set_def deref_def Js_Dict_set_def setValue_def
      setLinkedRecordID_def setLinkedRecordIDs_def transformValueFromObj_cases Js_Dict_get_def
      id_key_def typename_key_def frozen_key_def)

lemma store_ex_built:
  "(case create store_empty (JString ''4'') ''User'' of
      (Inl e, s1) \<Rightarrow> None
    | (Inr r0, s1) \<Rightarrow>
        (case create (freeze s1 r0) (JString ''4'') ''User'' of
           (Inl e, s3) \<Rightarrow> None
         | (Inr r1, s3) \<Rightarrow>
             (let (e4, s4) = setValue s3 r1 ''name'' (JString ''Zuck'')
              in (case create s4 (JString ''4'') ''User'' of
                    (Inl e, s5) \<Rightarrow> None
                  | (Inr r2, s5) \<Rightarrow> Some s5))))
   = Some store_ex"
  by (simp add: store_ex_def store_empty_def create_def create_id_def alloc_def
      Js_Dict_empty_def Let_def dict_set_def deref_def Js_Dict_set_def setValue_def freeze_def
      transformValueFromObj_cases Js_Dict_get_def id_key_def typename_key_def frozen_key_def)

lemma store_numbers_built:
  "(case create store_empty (JString ''client:42'') ''Number'' of
      (Inl e, s1) \<Rightarrow> None
    | (Inr r0, s1) \<Rightarrow>
        (case create s1 (JString ''42'') ''Number'' of
           (Inl e, s2) \<Rightarrow> None
         | (Inr r1, s2) \<Rightarrow> Some s2))
   = Some store_numbers"
  by (simp add: store_numbers_def store_empty_def create_def create_id_def alloc_def
      Js_Dict_empty_def Let_def dict_set_def deref_def Js_Dict_set_def id_key_def
      typename_key_def)

section \<open>The claims\<close>

subsection \<open>C1: update returns the previous record iff nothing changes\<close>




subsection \<open>C2: setters on a frozen record\<close>

text \<open>
  C2 says that after \<^verbatim>\<open>freeze(r)\<close> each of \<^verbatim>\<open>setValue\<close>, \<open>setLinkedRecordID\<close> and
  \<open>setLinkedRecordIDs\<close> fails. The code checks the frozen marker in \<^verbatim>\<open>setValue\<close> only.
  On the frozen record of the test suite \<^verbatim>\<open>setValue\<close> fails, while the two link
  setters return normally and write their entry into the frozen record.
\<close>

theorem setLinkedRecordID_on_frozen_record:
  "isFrozen store_frozen 0
   \<and> FrozenRecordMutation (fst (setValue store_frozen 0 ''pet'' (JString ''Beast'')))
   \<and> deref (setLinkedRecordID store_frozen 0 ''pet'' ''beast'') 0
        = deref store_frozen 0 @ [(''pet'', Ref ''beast'')]
   \<and> deref (setLinkedRecordIDs store_frozen 0 ''pets'' [Some ''beast'', None]) 0
        = deref store_frozen 0 @ [(''pets'', Refs [Some ''beast'', None])]"
  by (simp add: store_frozen_def store_user_def freeze_def isFrozen_def setValue_def
      setLinkedRecordID_def setLinkedRecordIDs_def transformValueFromObj_cases dict_set_def
      deref_def Js_Dict_get_def Js_Dict_set_def id_key_def typename_key_def frozen_key_def
      FrozenRecordMutation_def)

subsection \<open>C3: merge always returns a new record\<close>

text \<open>
  C3, as amended. For records \<open>r1\<close> and \<open>r2\<close> of a well-formed store,
  \<^verbatim>\<open>merge(r1, r2)\<close> returns a reference to a new object, distinct from \<open>r1\<close> and from
  \<open>r2\<close> also when no field changes; its entries are those of \<open>r1\<close> other than the frozen
  marker, with every entry of \<open>r2\<close> written over them.
\<close>

theorem merge_new_record:
  assumes "well_formed s" and "live s r1" and "live s r2"
  shows "fst (merge s r1 r2) \<noteq> r1 \<and> fst (merge s r1 r2) \<noteq> r2
       \<and> \<not> live s (fst (merge s r1 r2))
       \<and> live (snd (merge s r1 r2)) (fst (merge s r1 r2))
       \<and> deep_equal (deref (snd (merge s r1 r2)) (fst (merge s r1 r2)))
            (overlay (without_frozen (deref s r1)) (deref s r2))
       \<and> (\<forall>k. Js_Dict_get (deref (snd (merge s r1 r2)) (fst (merge s r1 r2))) k =
              (case Js_Dict_get (deref s r2) k of
                 Some v \<Rightarrow> Some v
               | None \<Rightarrow> if k = frozen_key then None else Js_Dict_get (deref s r1) k))"
proof -
  let ?m = "fst (merge s r1 r2)" and ?s' = "snd (merge s r1 r2)"
  have d1: "distinct (map fst (deref s r1))" and d2: "distinct (map fst (deref s r2))"
    using assms by (simp_all add: wf_live)
  have m: "?m = length (heap s)"
    by (rule merge_eq(1)[OF assms(2,3)])
  have h: "heap ?s' = heap s @ [overlay (clone_entries (deref s r1)) (deref s r2)]"
    by (rule merge_eq(2)[OF assms(2,3)])
  have new: "deref ?s' ?m = overlay (without_frozen (deref s r1)) (deref s r2)"
    by (simp add: deref_def m h clone_entries_wf [OF d1, unfolded deref_def])
  have look: "Js_Dict_get (deref ?s' ?m) k =
      (case Js_Dict_get (deref s r2) k of
         Some v \<Rightarrow> Some v
       | None \<Rightarrow> if k = frozen_key then None else Js_Dict_get (deref s r1) k)" for k
    unfolding new
    using get_overlay [OF d2, of "without_frozen (deref s r1)" k]
    by (simp add: get_without_frozen cong: option.case_cong)
  have fresh: "?m \<noteq> r1 \<and> ?m \<noteq> r2 \<and> \<not> live s ?m \<and> live ?s' ?m"
    using assms(2,3) by (simp add: m h live_def)
  show ?thesis
    using fresh look by (simp add: new deep_equal_def)
qed

text \<open>The theorem at the example store, once with \<open>r1 = r2\<close>.\<close>

theorem merge_new_record_witness:
  "live store_ex 1 \<and> live store_ex 2
   \<and> fst (merge store_ex 2 2) \<noteq> 2
   \<and> fst (merge store_ex 2 1) \<noteq> 2 \<and> fst (merge store_ex 2 1) \<noteq> 1
   \<and> deep_equal (deref (snd (merge store_ex 2 1)) (fst (merge store_ex 2 1)))
        (overlay (without_frozen (deref store_ex 2)) (deref store_ex 1))"
proof -
  have wf: "well_formed store_ex"
    by (simp add: well_formed_def store_ex_def id_key_def typename_key_def frozen_key_def)
  have l1: "live store_ex 1" and l2: "live store_ex 2"
    by (simp_all add: live_def store_ex_def)
  show ?thesis
    using merge_new_record [OF wf l2 l1] merge_new_record [OF wf l2 l2] wf l1 l2
    by blast
qed

text \<open>
  The claim as stated fails when \<open>r1\<close> is frozen: the entries of the result are not those
  of \<open>r1\<close> with the entries of \<open>r2\<close> written over them, the frozen marker is missing.
\<close>

theorem merge_drops_frozen_marker:
  "\<not> deep_equal (deref (snd (merge store_ex 0 2)) (fst (merge store_ex 0 2)))
       (overlay (deref store_ex 0) (deref store_ex 2))"
proof -
  have m: "merge store_ex 0 2 =
    (3, store_ex\<lparr>heap := heap store_ex @
          [[(id_key, String ''4''), (typename_key, String ''User'')]]\<rparr>)"
    by (simp add: merge_def Let_def getDataID_def getType_def deref_def Js_Dict_get_def
        Warning_warning_def isClientID_def Js_Dict_entries_def clone_def alloc_def dict_set_def
        Js_Dict_set_def Js_Dict_empty_def id_key_def typename_key_def frozen_key_def
        store_ex_def)
  have o: "overlay (deref store_ex 0) (deref store_ex 2) =
    [(id_key, String ''4''), (typename_key, String ''User''), (frozen_key, Bool True)]"
    by (simp add: overlay_def deref_def store_ex_def Js_Dict_set_def id_key_def
        typename_key_def frozen_key_def)
  have "(frozen_key, Bool True) \<in> set (overlay (deref store_ex 0) (deref store_ex 2))"
    unfolding o by simp
  moreover have "(frozen_key, Bool True) \<notin>
      set (deref (snd (merge store_ex 0 2)) (fst (merge store_ex 0 2)))"
    unfolding m by (simp add: deref_def store_ex_def id_key_def typename_key_def frozen_key_def)
  ultimately show ?thesis
    unfolding deep_equal_def by metis
qed

subsection \<open>C4: what the read accessors return and when they fail\<close>

text \<open>
  C4. For every record \<open>r\<close> and key \<open>k\<close>: \<^verbatim>\<open>getValue(r, k)\<close> returns undefined when \<open>k\<close>
  has no entry, null when the entry is the explicit null, and otherwise the stored value
  (the JavaScript form of the stored variant, which is the very value that a successful
  \<^verbatim>\<open>setValue\<close> was given); it fails with the type mismatch error when the entry is a
  single or a plural link. \<^verbatim>\<open>getLinkedRecordID(r, k)\<close> fails with the type mismatch error
  when the entry is a plain scalar or a plural link.
\<close>

theorem read_accessor_results:
  "(Js_Dict_get (deref s r) k = None \<longrightarrow> getValue s r k = Inr JUndefined)
 \<and> (Js_Dict_get (deref s r) k = Some Null \<longrightarrow> getValue s r k = Inr JNull)
 \<and> (\<forall>v. Js_Dict_get (deref s r) k = Some v \<and> (scalar_value v \<or> v = Undefined)
        \<longrightarrow> getValue s r k = Inr (transformValueToObj v))
 \<and> (\<forall>x s'. live s r \<and> \<not> link_wrapper x \<and> setValue s r k x = (Inr (), s')
        \<longrightarrow> getValue s' r k = Inr x)
 \<and> (\<forall>x. Js_Dict_get (deref s r) k = Some (Ref x) \<longrightarrow> TypeMismatch (getValue s r k))
 \<and> (\<forall>xs. Js_Dict_get (deref s r) k = Some (Refs xs) \<longrightarrow> TypeMismatch (getValue s r k))
 \<and> (\<forall>v. Js_Dict_get (deref s r) k = Some v \<and> scalar_value v
        \<longrightarrow> TypeMismatch (getLinkedRecordID s r k))
 \<and> (\<forall>xs. Js_Dict_get (deref s r) k = Some (Refs xs)
        \<longrightarrow> TypeMismatch (getLinkedRecordID s r k))"
proof -
  have p1: "Js_Dict_get (deref s r) k = None \<longrightarrow> getValue s r k = Inr JUndefined"
    by (simp add: getValue_def)
  have p2: "Js_Dict_get (deref s r) k = Some Null \<longrightarrow> getValue s r k = Inr JNull"
    by (simp add: getValue_def)
  have p3: "getValue s r k = Inr (transformValueToObj v)"
    if "Js_Dict_get (deref s r) k = Some v" and "scalar_value v \<or> v = Undefined" for v
    using that by (cases v) (simp_all add: getValue_def scalar_value_def)
  have p4: "getValue s' r k = Inr x"
    if l: "live s r" and nl: "\<not> link_wrapper x" and sv: "setValue s r k x = (Inr (), s')"
    for x s'
  proof -
    obtain val s1 where
      val: "x = JNull \<and> val = Null \<or> x = JUndefined \<and> val = Undefined
            \<or> x \<noteq> JNull \<and> x \<noteq> JUndefined \<and> transformValueFromObj x = Inr val"
      and h1: "heap s1 = heap s" and s': "s' = dict_set s1 r k val"
      using setValue_Inr [OF sv] by blast
    have "live s1 r" using l h1 by (simp add: live_def)
    then have g: "Js_Dict_get (deref s' r) k = Some val"
      unfolding s' by (rule get_dict_set)
    from val show ?thesis
    proof (elim disjE conjE)
      assume "x = JNull" "val = Null"
      then show ?thesis using g by (simp add: getValue_def)
    next
      assume "x = JUndefined" "val = Undefined"
      then show ?thesis using g by (simp add: getValue_def)
    next
      assume t: "transformValueFromObj x = Inr val"
      have "scalar_value val" by (rule not_link_wrapper_scalar [OF t nl])
      then have "getValue s' r k = Inr (transformValueToObj val)"
        using g by (cases val) (simp_all add: getValue_def scalar_value_def)
      then show ?thesis by (simp add: transformValueToObj_inverse [OF t nl])
    qed
  qed
  have p5: "\<forall>x. Js_Dict_get (deref s r) k = Some (Ref x) \<longrightarrow> TypeMismatch (getValue s r k)"
    by (simp add: getValue_def TypeMismatch_def)
  have p6: "\<forall>xs. Js_Dict_get (deref s r) k = Some (Refs xs) \<longrightarrow> TypeMismatch (getValue s r k)"
    by (simp add: getValue_def TypeMismatch_def)
  have p7: "TypeMismatch (getLinkedRecordID s r k)"
    if "Js_Dict_get (deref s r) k = Some v" and "scalar_value v" for v
    using that by (cases v) (simp_all add: getLinkedRecordID_def TypeMismatch_def scalar_value_def)
  have p8: "\<forall>xs. Js_Dict_get (deref s r) k = Some (Refs xs)
        \<longrightarrow> TypeMismatch (getLinkedRecordID s r k)"
    by (simp add: getLinkedRecordID_def TypeMismatch_def)
  show ?thesis using p1 p2 p3 p4 p5 p6 p7 p8 by blast
qed

text \<open>The theorem at the record of the test suite.\<close>

theorem read_accessor_results_witness:
  "getValue store_user 0 ''horoscope'' = Inr JUndefined
 \<and> getValue store_user 0 ''enemies'' = Inr JNull
 \<and> getValue store_user 0 ''name'' = Inr (JString ''Mark'')
 \<and> getValue (snd (setValue store_user 0 ''colors'' (JArray [JString ''red'']))) 0 ''colors''
      = Inr (JArray [JString ''red''])
 \<and> TypeMismatch (getValue store_user 0 ''hometown'')
 \<and> TypeMismatch (getValue store_user 0 ''friends'')
 \<and> TypeMismatch (getLinkedRecordID store_user 0 ''name'')
 \<and> TypeMismatch (getLinkedRecordID store_user 0 ''friends'')"
proof -
  have g: "Js_Dict_get (deref store_user 0) ''horoscope'' = None"
    "Js_Dict_get (deref store_user 0) ''enemies'' = Some Null"
    "Js_Dict_get (deref store_user 0) ''name'' = Some (String ''Mark'')"
    "Js_Dict_get (deref store_user 0) ''hometown'' = Some (Ref ''mpk'')"
    "Js_Dict_get (deref store_user 0) ''friends'' = Some (Refs [Some ''beast'', Some ''greg'', None])"
    by (simp_all add: store_user_def deref_def Js_Dict_get_def id_key_def typename_key_def)
  have sc: "scalar_value (String ''Mark'')"
    by (simp add: scalar_value_def)
  have l: "live store_user 0"
    by (simp add: live_def store_user_def)
  have nl: "\<not> link_wrapper (JArray [JString ''red''])"
    by (simp add: link_wrapper_def)
  have sv: "setValue store_user 0 ''colors'' (JArray [JString ''red'']) =
      (Inr (), snd (setValue store_user 0 ''colors'' (JArray [JString ''red''])))"
    by (simp add: setValue_def transformValueFromObj_cases store_user_def deref_def
        Js_Dict_get_def id_key_def typename_key_def frozen_key_def)
  have a: "getValue store_user 0 ''horoscope'' = Inr JUndefined"
    and b: "getValue store_user 0 ''enemies'' = Inr JNull"
    and c: "TypeMismatch (getValue store_user 0 ''hometown'')"
    and d: "TypeMismatch (getLinkedRecordID store_user 0 ''friends'')"
    and e: "TypeMismatch (getValue store_user 0 ''friends'')"
    using read_accessor_results [of store_user 0 "''horoscope''"]
      read_accessor_results [of store_user 0 "''enemies''"]
      read_accessor_results [of store_user 0 "''hometown''"]
      read_accessor_results [of store_user 0 "''friends''"] g
    by blast+
  have f: "getValue store_user 0 ''name'' = Inr (JString ''Mark'')"
    and h: "TypeMismatch (getLinkedRecordID store_user 0 ''name'')"
    using read_accessor_results [of store_user 0 "''name''"] g(3) sc
    by (auto dest: spec [of _ "String ''Mark''"])
  have i: "getValue (snd (setValue store_user 0 ''colors'' (JArray [JString ''red'']))) 0 ''colors''
      = Inr (JArray [JString ''red''])"
    using read_accessor_results [of store_user 0 "''colors''"] l nl sv by blast
  show ?thesis using a b c d e f h i by blast
qed

subsection \<open>C5: from a record to a plain object and back\<close>

text \<open>
  C5, as amended. Let \<open>r\<close> be a record of a well-formed store whose fields hold values as
  the module stores them: scalars, explicit null, undefined, single links, plural links
  with null slots. Then \<^verbatim>\<open>fromObj(toObj(r))\<close> returns a new record that is deep-equal to
  \<open>r\<close> without its frozen marker; it is deep-equal to \<open>r\<close> when \<open>r\<close> has no frozen marker.
\<close>

theorem fromObj_toObj_round_trip:
  assumes "well_formed s" and "live s r" and "\<forall>e \<in> set (deref s r). boundary_value (snd e)"
  shows "fst (fromObj s (toObj s (Nullable_return r))) = Inr (length (heap s))
       \<and> deep_equal (deref (snd (fromObj s (toObj s (Nullable_return r)))) (length (heap s)))
            (without_frozen (deref s r))
       \<and> (Js_Dict_get (deref s r) frozen_key = None
            \<longrightarrow> deep_equal (deref (snd (fromObj s (toObj s (Nullable_return r)))) (length (heap s)))
                  (deref s r))"
proof -
  have "without_frozen (deref s r) = deref s r" if "Js_Dict_get (deref s r) frozen_key = None"
  proof -
    have "frozen_key \<notin> fst ` set (deref s r)"
      using that by (simp add: Js_Dict_get_def map_of_eq_None_iff)
    then have "\<forall>e \<in> set (deref s r). fst e \<noteq> frozen_key" by force
    then show ?thesis
      unfolding without_frozen_def by (intro filter_True) auto
  qed
  then show ?thesis
    by (simp add: fromObj_toObj [OF assms] deref_def deep_equal_def)
qed

text \<open>The theorem at the record of the test suite, which has a field of each kind.\<close>

theorem fromObj_toObj_round_trip_witness:
  "live store_user 0
   \<and> Js_Dict_get (deref store_user 0) frozen_key = None
   \<and> fst (fromObj store_user (toObj store_user (Nullable_return 0))) = Inr 1
   \<and> deep_equal (deref (snd (fromObj store_user (toObj store_user (Nullable_return 0)))) 1)
        (deref store_user 0)"
proof -
  have wf: "well_formed store_user"
    by (simp add: well_formed_def store_user_def id_key_def typename_key_def)
  have l: "live store_user 0"
    by (simp add: live_def store_user_def)
  have b: "\<forall>e \<in> set (deref store_user 0). boundary_value (snd e)"
    by (simp add: deref_def store_user_def)
  have f: "Js_Dict_get (deref store_user 0) frozen_key = None"
    by (simp add: deref_def store_user_def Js_Dict_get_def id_key_def typename_key_def
        frozen_key_def)
  have n: "length (heap store_user) = 1"
    by (simp add: store_user_def)
  show ?thesis
    using fromObj_toObj_round_trip [OF wf l b] wf l b f n by simp
qed

text \<open>
  The claim as stated fails on a frozen record: \<^verbatim>\<open>toObj\<close> leaves the frozen marker out,
  so the record that comes back is not deep-equal to the frozen one.
\<close>

theorem fromObj_toObj_drops_frozen_marker:
  "fst (fromObj store_frozen (toObj store_frozen (Nullable_return 0))) = Inr 1
   \<and> \<not> deep_equal (deref (snd (fromObj store_frozen (toObj store_frozen (Nullable_return 0)))) 1)
         (deref store_frozen 0)"
proof -
  have t: "toObj store_frozen (Nullable_return 0) =
      [(id_key, JString ''4''), (typename_key, JString ''User''), (''name'', JString ''Mark''),
       (''enemies'', JNull), (''age'', JUndefined), (''hometown'', JObject (Some ''mpk'') None []),
       (''friends'', JObject None (Some [Some ''beast'', Some ''greg'', None]) [])]"
    by (simp add: toObj_def store_frozen_def store_user_def freeze_def dict_set_def deref_def
        Js_Dict_entries_def Js_Dict_empty_def Js_Dict_set_def id_key_def typename_key_def
        frozen_key_def)
  have f: "fromObj store_frozen (toObj store_frozen (Nullable_return 0)) =
      (Inr 1, store_frozen\<lparr>heap := heap store_frozen @ [deref store_user 0]\<rparr>)"
    unfolding t
    by (simp add: fromObj_def alloc_def Js_Dict_empty_def Js_Dict_entries_def
        transformValueFromObj_cases store_frozen_def store_user_def freeze_def dict_set_def
        deref_def Js_Dict_set_def id_key_def typename_key_def frozen_key_def)
  have "(frozen_key, Bool True) \<in> set (deref store_frozen 0)"
    by (simp add: store_frozen_def store_user_def freeze_def dict_set_def deref_def
        Js_Dict_set_def id_key_def typename_key_def frozen_key_def)
  moreover have "(frozen_key, Bool True) \<notin>
      set (deref (snd (fromObj store_frozen (toObj store_frozen (Nullable_return 0)))) 1)"
    unfolding f
    by (simp add: store_frozen_def store_user_def freeze_def dict_set_def deref_def
        Js_Dict_set_def id_key_def typename_key_def frozen_key_def)
  ultimately have "\<not> deep_equal
      (deref (snd (fromObj store_frozen (toObj store_frozen (Nullable_return 0)))) 1)
      (deref store_frozen 0)"
    unfolding deep_equal_def by metis
  moreover have "fst (fromObj store_frozen (toObj store_frozen (Nullable_return 0))) = Inr 1"
    unfolding f by simp
  ultimately show ?thesis by blast
qed

subsection \<open>C6: create\<close>




subsection \<open>C7: the message of a type mismatch\<close>

text \<open>
  C7 says that the message of every type mismatch names the id of the record, the key and
  the kind of value found. \<^verbatim>\<open>getValue\<close> and \<open>getLinkedRecordIDs\<close> build such a message
  (\<open>getValue_message\<close>, \<open>getLinkedRecordIDs_message\<close>); \<^verbatim>\<open>getLinkedRecordID\<close> raises the
  fixed message \<^verbatim>\<open>WRONG\<close>, which contains neither the id nor the key.
\<close>

theorem getLinkedRecordID_message:
  "Js_Dict_get (deref store_user 0) ''name'' = Some (String ''Mark'')
   \<and> getDataID store_user 0 = ''4''
   \<and> getLinkedRecordID store_user 0 ''name'' = Inl (Error ''WRONG'')
   \<and> \<not> sublist ''4'' ''WRONG'' \<and> \<not> sublist ''name'' ''WRONG''"
  by (simp add: store_user_def getLinkedRecordID_def getDataID_def deref_def Js_Dict_get_def
      id_key_def typename_key_def sublist_Cons_right)

subsection \<open>C8: the type warning of setValue\<close>

text \<open>
  C8, as amended. \<^verbatim>\<open>setValue\<close> on the type key with a type name: when the id of the
  record is client-generated (it starts with \<^verbatim>\<open>client:\<close>), nothing is reported; when the
  id is not client-generated, the new type differs from the old one and the record is not
  frozen, exactly the type warning is reported, the call returns normally and the new type
  is stored.
\<close>

theorem setValue_type_warning:
  assumes "live s r"
  shows "(isClientID (getDataID s r)
            \<longrightarrow> warnings (snd (setValue s r typename_key (JString t))) = warnings s)
       \<and> (\<not> isClientID (getDataID s r) \<and> getType s r \<noteq> t \<and> \<not> isFrozen s r
            \<longrightarrow> warnings (snd (setValue s r typename_key (JString t)))
                  = warnings s @ [(field_type_format, [getDataID s r, typename_key, getType s r, t])]
              \<and> fst (setValue s r typename_key (JString t)) = Inr ()
              \<and> getType (snd (setValue s r typename_key (JString t))) r = t)"
proof -
  have l: "live (Warning_warning s c f args) r" for c f args
    using assms by (simp add: live_Warning_warning)
  have w: "warnings (dict_set s1 r k v) = warnings s1" for s1 k v
    by (simp add: dict_set_def)
  show ?thesis
    by (simp add: setValue_typename Let_def w getType_dict_set [OF l]) (simp add: Warning_warning_def)
qed

text \<open>The theorem at the records \<^verbatim>\<open>client:42\<close> and \<^verbatim>\<open>42\<close> of type \<^verbatim>\<open>Number\<close>.\<close>

theorem setValue_type_warning_witness:
  "live store_numbers 0 \<and> live store_numbers 1
   \<and> warnings (snd (setValue store_numbers 0 typename_key (JString ''MeaningOfLife''))) = []
   \<and> warnings (snd (setValue store_numbers 1 typename_key (JString ''MeaningOfLife'')))
        = [(field_type_format, [''42'', typename_key, ''Number'', ''MeaningOfLife''])]
   \<and> fst (setValue store_numbers 1 typename_key (JString ''MeaningOfLife'')) = Inr ()
   \<and> getType (snd (setValue store_numbers 1 typename_key (JString ''MeaningOfLife''))) 1
        = ''MeaningOfLife''"
proof -
  have l0: "live store_numbers 0" and l1: "live store_numbers 1"
    by (simp_all add: live_def store_numbers_def)
  have f: "getDataID store_numbers 0 = ''client:42''" "getDataID store_numbers 1 = ''42''"
    "getType store_numbers 1 = ''Number''" "\<not> isFrozen store_numbers 1"
    "warnings store_numbers = []"
    by (simp_all add: getDataID_def getType_def isFrozen_def deref_def store_numbers_def
        Js_Dict_get_def id_key_def typename_key_def frozen_key_def)
  have c: "isClientID ''client:42''" "\<not> isClientID ''42''"
    by (simp_all add: isClientID_def)
  show ?thesis
    using setValue_type_warning [OF l0, of "''MeaningOfLife''"]
      setValue_type_warning [OF l1, of "''MeaningOfLife''"] l0 l1 f c
    by simp
qed

text \<open>
  The claim as stated fails on a frozen record with a server id: the call fails with the
  frozen error and the old type stays.
\<close>

theorem setValue_type_on_frozen_record:
  "\<not> isClientID (getDataID store_frozen 0) \<and> getType store_frozen 0 \<noteq> ''Page''
   \<and> FrozenRecordMutation (fst (setValue store_frozen 0 typename_key (JString ''Page'')))
   \<and> getType (snd (setValue store_frozen 0 typename_key (JString ''Page''))) 0 = ''User''"
  unfolding setValue_typename
  by (simp add: Let_def store_frozen_def store_user_def freeze_def isFrozen_def
      getDataID_def getType_def dict_set_def deref_def Js_Dict_get_def Js_Dict_set_def
      Warning_warning_def isClientID_def id_key_def typename_key_def frozen_key_def
      FrozenRecordMutation_def)

subsection \<open>C9: the copying operations leave their arguments alone\<close>

text \<open>
  C9. \<^verbatim>\<open>clone\<close>, \<open>update\<close> and \<open>merge\<close> never change their arguments: after each call
  the entries of every argument, and of every other object allocated before the call,
  are what they were.
\<close>

theorem copy_operations_keep_inputs:
  assumes "live s a" and "live s b"
  shows "deref (snd (clone s a)) a = deref s a
       \<and> deref (snd (update s a b)) a = deref s a
       \<and> deref (snd (update s a b)) b = deref s b
       \<and> deref (snd (merge s a b)) a = deref s a
       \<and> deref (snd (merge s a b)) b = deref s b
       \<and> (\<forall>r. live s r \<longrightarrow> deref (snd (clone s a)) r = deref s r
                \<and> deref (snd (update s a b)) r = deref s r
                \<and> deref (snd (merge s a b)) r = deref s r)"
proof -
  have all: "deref (snd (clone s a)) r = deref s r
           \<and> deref (snd (update s a b)) r = deref s r
           \<and> deref (snd (merge s a b)) r = deref s r" if "live s r" for r
  proof -
    have "deref (snd (clone s a)) r = deref s r"
      using that assms(1) by (simp add: clone_eq' deref_def live_def nth_append)
    moreover have "deref (snd (update s a b)) r = deref s r"
      using that update_eq(2) [OF assms(1), of b] by (simp add: deref_def live_def nth_append)
    moreover have "deref (snd (merge s a b)) r = deref s r"
      using that merge_eq(2) [OF assms] by (simp add: deref_def live_def nth_append)
    ultimately show ?thesis by simp
  qed
  show ?thesis using all [of a] all [of b] all assms by simp
qed

theorem copy_operations_keep_inputs_witness:
  "live store_ex 0 \<and> live store_ex 1
   \<and> deref (snd (clone store_ex 0)) 0 = deref store_ex 0
   \<and> deref (snd (update store_ex 0 1)) 0 = deref store_ex 0
   \<and> deref (snd (update store_ex 0 1)) 1 = deref store_ex 1
   \<and> deref (snd (merge store_ex 0 1)) 0 = deref store_ex 0
   \<and> deref (snd (merge store_ex 0 1)) 1 = deref store_ex 1"
proof -
  have l0: "live store_ex 0" and l1: "live store_ex 1"
    by (simp_all add: live_def store_ex_def)
  show ?thesis
    using copy_operations_keep_inputs [OF l0 l1] l0 l1 by blast
qed

subsection \<open>C10: copyFields carries the frozen marker over\<close>

text \<open>
  C10. When \<open>source\<close> is frozen, \<^verbatim>\<open>copyFields(source, sink)\<close> writes the frozen marker
  into \<open>sink\<close> together with every other entry of \<open>source\<close> except those under the id
  key and the type key, which keep the value they have in \<open>sink\<close>: afterwards
  \<^verbatim>\<open>isFrozen(sink)\<close> holds, whatever \<open>sink\<close> was before. \<^verbatim>\<open>clone\<close> and \<open>toObj\<close> do
  not carry the marker: the clone of \<open>source\<close> is not frozen, and the plain object of
  \<open>source\<close> has no entry under the frozen key.
\<close>

theorem copyFields_copies_frozen_marker:
  assumes "well_formed s" and "live s source" and "live s sink" and "isFrozen s source"
  shows "isFrozen (copyFields s source sink) sink
       \<and> (\<forall>k v. k \<noteq> id_key \<and> k \<noteq> typename_key
              \<and> Js_Dict_get (deref s source) k = Some v
            \<longrightarrow> Js_Dict_get (deref (copyFields s source sink) sink) k = Some v)
       \<and> Js_Dict_get (deref (copyFields s source sink) sink) id_key
            = Js_Dict_get (deref s sink) id_key
       \<and> Js_Dict_get (deref (copyFields s source sink) sink) typename_key
            = Js_Dict_get (deref s sink) typename_key
       \<and> \<not> isFrozen (snd (clone s source)) (fst (clone s source))
       \<and> Js_Dict_get (toObj s (Nullable_return source)) frozen_key = None"
proof -
  let ?s' = "copyFields s source sink"
  have ds: "distinct (map fst (deref s source))"
    using assms by (simp add: wf_live)
  have fr: "Js_Dict_get (deref s source) frozen_key = Some (Bool True)"
    using assms(4)
    by (auto simp: isFrozen_def split: option.splits "value.splits")
  have sink: "deref ?s' sink =
      fold (\<lambda>(k, v) d. if k \<noteq> id_key \<and> k \<noteq> typename_key then Js_Dict_set d k v else d)
        (deref s source) (deref s sink)"
    using assms(3) by (simp add: copyFields_eq deref_def live_def)
  have look: "Js_Dict_get (deref ?s' sink) k =
      (case Js_Dict_get (deref s source) k of
         Some v \<Rightarrow> if k \<noteq> id_key \<and> k \<noteq> typename_key then Some v
                   else Js_Dict_get (deref s sink) k
       | None \<Rightarrow> Js_Dict_get (deref s sink) k)" for k
    unfolding sink by (rule get_fold_set [OF ds])
  have p1: "isFrozen ?s' sink"
    using fr by (simp add: isFrozen_def look id_key_def typename_key_def frozen_key_def)
  have p2: "\<forall>k v. k \<noteq> id_key \<and> k \<noteq> typename_key
              \<and> Js_Dict_get (deref s source) k = Some v
            \<longrightarrow> Js_Dict_get (deref ?s' sink) k = Some v"
    by (simp add: look)
  have p3: "Js_Dict_get (deref ?s' sink) id_key = Js_Dict_get (deref s sink) id_key"
    and p4: "Js_Dict_get (deref ?s' sink) typename_key = Js_Dict_get (deref s sink) typename_key"
    by (simp_all add: look split: option.splits)
  have c: "deref (snd (clone s source)) (fst (clone s source)) = without_frozen (deref s source)"
    using assms(2) clone_entries_wf [OF ds] by (simp add: clone_eq' deref_def)
  have p5: "\<not> isFrozen (snd (clone s source)) (fst (clone s source))"
    by (simp add: isFrozen_def c get_without_frozen)
  have "frozen_key \<notin> fst ` set (toObj s (Nullable_return source))"
    using keys_fold_set [of "\<lambda>k. k \<noteq> frozen_key" transformValueToObj "deref s source" "[]"]
    by (auto simp: toObj_def Js_Dict_entries_def Js_Dict_empty_def)
  then have p6: "Js_Dict_get (toObj s (Nullable_return source)) frozen_key = None"
    by (simp add: Js_Dict_get_def map_of_eq_None_iff)
  show ?thesis using p1 p2 p3 p4 p5 p6 by blast
qed

text \<open>The theorem at the example store: object 0 is frozen, object 1 is not.\<close>

theorem copyFields_copies_frozen_marker_witness:
  "live store_ex 0 \<and> live store_ex 1 \<and> isFrozen store_ex 0
   \<and> \<not> isFrozen store_ex 1
   \<and> isFrozen (copyFields store_ex 0 1) 1
   \<and> \<not> isFrozen (snd (clone store_ex 0)) (fst (clone store_ex 0))
   \<and> Js_Dict_get (toObj store_ex (Nullable_return 0)) frozen_key = None"
proof -
  have wf: "well_formed store_ex"
    by (simp add: well_formed_def store_ex_def id_key_def typename_key_def frozen_key_def)
  have l0: "live store_ex 0" and l1: "live store_ex 1"
    by (simp_all add: live_def store_ex_def)
  have f0: "isFrozen store_ex 0" and f1: "\<not> isFrozen store_ex 1"
    by (simp_all add: isFrozen_def deref_def store_ex_def Js_Dict_get_def id_key_def
        typename_key_def frozen_key_def)
  show ?thesis
    using copyFields_copies_frozen_marker [OF wf l0 l1 f0] wf l0 l1 f0 f1 by blast
qed

end
